theory Spec2Isabelle
  imports Complex_Main
begin

section \<open>Errors\<close>

text \<open>
  The exceptions that the modelled code, or the library operations it calls, can raise.
\<close>

datatype error =
    OverflowError
  | OutOfBoundsDatetime
  | AttributeError
  | KeyError
  | ConstructionError

section \<open>Calendar dates\<close>

text \<open>
  The observance functions of \<^verbatim>\<open>exchange_calendar_xtai.py\<close> are annotated with
  \<^verbatim>\<open>datetime.datetime\<close>. They read \<^verbatim>\<open>year\<close>, \<^verbatim>\<open>month\<close>, \<^verbatim>\<open>day\<close> and
  \<^verbatim>\<open>weekday()\<close> and add or subtract whole days, so a value is modelled by its date
  fields; the time of day is never read and is carried unchanged by whole-day arithmetic.
  The arithmetic below follows the proleptic Gregorian calendar of Python's
  \<^verbatim>\<open>datetime\<close> module: \<^verbatim>\<open>_is_leap\<close>, \<^verbatim>\<open>_days_before_year\<close>,
  \<^verbatim>\<open>_days_in_month\<close>, \<^verbatim>\<open>_days_before_month\<close>, \<^verbatim>\<open>_ymd2ord\<close>.
\<close>

record datetime =
  year :: int
  month :: int
  day :: int

definition MINYEAR :: int where "MINYEAR = 1"
definition MAXYEAR :: int where "MAXYEAR = 9999"

definition is_leap :: "int \<Rightarrow> bool" where
  "is_leap y = (y mod 4 = 0 \<and> (y mod 100 \<noteq> 0 \<or> y mod 400 = 0))"

definition days_before_year :: "int \<Rightarrow> int" where
  "days_before_year y = (let p = y - 1 in p * 365 + p div 4 - p div 100 + p div 400)"

definition days_in_month :: "int \<Rightarrow> int \<Rightarrow> int" where
  "days_in_month y m =
     (if m = 2 \<and> is_leap y then 29
      else if m = 2 then 28
      else if m = 4 \<or> m = 6 \<or> m = 9 \<or> m = 11 then 30
      else 31)"

definition days_before_month :: "int \<Rightarrow> int \<Rightarrow> int" where
  "days_before_month y m =
     [0, 0, 31, 59, 90, 120, 151, 181, 212, 243, 273, 304, 334] ! nat m
       + (if m > 2 \<and> is_leap y then 1 else 0)"

text \<open>The constructor's range check: every \<^verbatim>\<open>datetime\<close> object satisfies it.\<close>

definition valid_datetime :: "datetime \<Rightarrow> bool" where
  "valid_datetime d =
     (MINYEAR \<le> year d \<and> year d \<le> MAXYEAR \<and> 1 \<le> month d \<and> month d \<le> 12
      \<and> 1 \<le> day d \<and> day d \<le> days_in_month (year d) (month d))"

definition toordinal :: "datetime \<Rightarrow> int" where
  "toordinal d = days_before_year (year d) + days_before_month (year d) (month d) + day d"

text \<open>\<^verbatim>\<open>weekday()\<close>: Monday is 0 and Sunday is 6.\<close>

definition weekday :: "datetime \<Rightarrow> int" where
  "weekday d = (toordinal d + 6) mod 7"

definition datetime_min :: datetime where
  "datetime_min = \<lparr>year = 1, month = 1, day = 1\<rparr>"

definition datetime_max :: datetime where
  "datetime_max = \<lparr>year = 9999, month = 12, day = 31\<rparr>"

text \<open>The calendar date after, and the calendar date before.\<close>

definition next_day :: "datetime \<Rightarrow> datetime" where
  "next_day d =
     (if day d < days_in_month (year d) (month d) then d\<lparr>day := day d + 1\<rparr>
      else if month d < 12 then d\<lparr>month := month d + 1, day := 1\<rparr>
      else \<lparr>year = year d + 1, month = 1, day = 1\<rparr>)"

definition prev_day :: "datetime \<Rightarrow> datetime" where
  "prev_day d =
     (if 1 < day d then d\<lparr>day := day d - 1\<rparr>
      else if 1 < month d
        then d\<lparr>month := month d - 1, day := days_in_month (year d) (month d - 1)\<rparr>
      else \<lparr>year = year d - 1, month = 12, day = 31\<rparr>)"

text \<open>
  \<^verbatim>\<open>dt + timedelta(n)\<close> and \<^verbatim>\<open>dt - timedelta(n)\<close> for a whole number of days. Python
  raises \<^verbatim>\<open>OverflowError\<close> when the result leaves the years 1 to 9999; the days are
  stepped one at a time, so the error is met exactly when the result would be out of range.
\<close>

fun plus_days :: "datetime \<Rightarrow> nat \<Rightarrow> error + datetime" where
  "plus_days d 0 = Inr d"
| "plus_days d (Suc n) =
     (if d = datetime_max then Inl OverflowError else plus_days (next_day d) n)"

fun minus_days :: "datetime \<Rightarrow> nat \<Rightarrow> error + datetime" where
  "minus_days d 0 = Inr d"
| "minus_days d (Suc n) =
     (if d = datetime_min then Inl OverflowError else minus_days (prev_day d) n)"

text \<open>A \<^verbatim>\<open>timedelta\<close> of whole days is its number of days.\<close>

type_synonym timedelta = int

definition datetime_add :: "datetime \<Rightarrow> timedelta \<Rightarrow> error + datetime" where
  "datetime_add d td = (if 0 \<le> td then plus_days d (nat td) else minus_days d (nat (- td)))"

definition datetime_sub :: "datetime \<Rightarrow> timedelta \<Rightarrow> error + datetime" where
  "datetime_sub d td = datetime_add d (- td)"

text \<open>
  A date that reaches an observance function is an object of one of two classes. The
  annotations say \<^verbatim>\<open>datetime.datetime\<close>; \<^verbatim>\<open>pandas\<close> passes the elements of a
  \<^verbatim>\<open>DatetimeIndex\<close>, which are nanosecond \<^verbatim>\<open>Timestamp\<close> objects, a subclass. Both carry the
  same date fields and the same \<^verbatim>\<open>weekday()\<close>; they differ in the range of their day
  arithmetic. A nanosecond \<^verbatim>\<open>Timestamp\<close> holds the instants from 1677-09-21 00:12:43.145224193
  to 2262-04-11 23:47:16.854775807, so a date at midnight, which is what a holiday rule
  passes, lies between 1677-09-22 and 2262-04-11, and a shift that leaves these days raises
  \<^verbatim>\<open>OutOfBoundsDatetime\<close>. The shift keeps the class of the date.
\<close>

datatype date_class = PlainDatetime | NanosecondTimestamp

definition Timestamp_min_day :: datetime where
  "Timestamp_min_day = \<lparr>year = 1677, month = 9, day = 22\<rparr>"

definition Timestamp_max_day :: datetime where
  "Timestamp_max_day = \<lparr>year = 2262, month = 4, day = 11\<rparr>"

definition date_add :: "date_class \<Rightarrow> datetime \<Rightarrow> timedelta \<Rightarrow> error + datetime" where
  "date_add cls d td =
     (case cls of
        PlainDatetime \<Rightarrow> datetime_add d td
      | NanosecondTimestamp \<Rightarrow>
          (if toordinal Timestamp_min_day \<le> toordinal d + td
              \<and> toordinal d + td \<le> toordinal Timestamp_max_day
           then datetime_add d td
           else Inl OutOfBoundsDatetime))"

definition date_sub :: "date_class \<Rightarrow> datetime \<Rightarrow> timedelta \<Rightarrow> error + datetime" where
  "date_sub cls d td = date_add cls d (- td)"

text \<open>The dates an object of a class can hold: the constructor's range check.\<close>

definition valid_date :: "date_class \<Rightarrow> datetime \<Rightarrow> bool" where
  "valid_date cls d =
     (valid_datetime d
      \<and> (case cls of
           PlainDatetime \<Rightarrow> True
         | NanosecondTimestamp \<Rightarrow>
             toordinal Timestamp_min_day \<le> toordinal d
             \<and> toordinal d \<le> toordinal Timestamp_max_day))"

text \<open>
  The first and the last day an object of a class can hold, and the exception its day
  arithmetic raises beyond them.
\<close>

definition first_day :: "date_class \<Rightarrow> datetime" where
  "first_day cls =
     (case cls of PlainDatetime \<Rightarrow> datetime_min | NanosecondTimestamp \<Rightarrow> Timestamp_min_day)"

definition last_day :: "date_class \<Rightarrow> datetime" where
  "last_day cls =
     (case cls of PlainDatetime \<Rightarrow> datetime_max | NanosecondTimestamp \<Rightarrow> Timestamp_max_day)"

definition range_error :: "date_class \<Rightarrow> error" where
  "range_error cls =
     (case cls of PlainDatetime \<Rightarrow> OverflowError | NanosecondTimestamp \<Rightarrow> OutOfBoundsDatetime)"

section \<open>Results, and index arithmetic\<close>

text \<open>
  An exception raised while a value is computed ends the computation: later steps run only
  on a value.
\<close>

definition bind_result :: "error + 'a \<Rightarrow> ('a \<Rightarrow> error + 'b) \<Rightarrow> error + 'b" where
  "bind_result m f = (case m of Inl e \<Rightarrow> Inl e | Inr x \<Rightarrow> f x)"

text \<open>
  \<^verbatim>\<open>holidays.map(f)\<close> and a list comprehension: \<open>f\<close> is applied to each element in order,
  and the first exception ends the whole computation.
\<close>

fun map_result :: "('a \<Rightarrow> error + 'b) \<Rightarrow> 'a list \<Rightarrow> error + 'b list" where
  "map_result f [] = Inr []"
| "map_result f (x # xs) =
     (case f x of
        Inl e \<Rightarrow> Inl e
      | Inr y \<Rightarrow> (case map_result f xs of Inl e \<Rightarrow> Inl e | Inr ys \<Rightarrow> Inr (y # ys)))"

text \<open>
  A \<^verbatim>\<open>DatetimeIndex\<close> is the list of its dates, each a nanosecond \<^verbatim>\<open>Timestamp\<close>; adding
  or subtracting a \<^verbatim>\<open>timedelta\<close> shifts every element. The shift is done on the array of
  64-bit integers, and an element that would leave the range makes the operation raise
  \<^verbatim>\<open>OverflowError\<close>. \<^verbatim>\<open>pd.to_datetime\<close> of dates is the same dates.
\<close>

definition index_shift :: "datetime \<Rightarrow> timedelta \<Rightarrow> error + datetime" where
  "index_shift d td =
     (case date_add NanosecondTimestamp d td of
        Inl x \<Rightarrow> Inl OverflowError
      | Inr r \<Rightarrow> Inr r)"

definition index_add :: "datetime list \<Rightarrow> timedelta \<Rightarrow> error + datetime list" where
  "index_add idx td = map_result (\<lambda>d. index_shift d td) idx"

definition index_sub :: "datetime list \<Rightarrow> timedelta \<Rightarrow> error + datetime list" where
  "index_sub idx td = map_result (\<lambda>d. index_shift d (- td)) idx"

section \<open>The observance functions of \<^verbatim>\<open>pandas.tseries.holiday\<close>\<close>

text \<open>
  \<^verbatim>\<open>next_monday\<close>: Saturday and Sunday move to the following Monday.
  \<^verbatim>\<open>previous_friday\<close>: Saturday and Sunday move to the preceding Friday.
  \<^verbatim>\<open>nearest_workday\<close>: Saturday moves to Friday, Sunday to Monday.
  The first argument is the class of the date \<open>dt\<close>.
\<close>

definition next_monday :: "date_class \<Rightarrow> datetime \<Rightarrow> error + datetime" where
  "next_monday cls dt =
     (if weekday dt = 5 then date_add cls dt 2
      else if weekday dt = 6 then date_add cls dt 1
      else Inr dt)"

definition previous_friday :: "date_class \<Rightarrow> datetime \<Rightarrow> error + datetime" where
  "previous_friday cls dt =
     (if weekday dt = 5 then date_sub cls dt 1
      else if weekday dt = 6 then date_sub cls dt 2
      else Inr dt)"

definition nearest_workday :: "date_class \<Rightarrow> datetime \<Rightarrow> error + datetime" where
  "nearest_workday cls dt =
     (if weekday dt = 5 then date_sub cls dt 1
      else if weekday dt = 6 then date_add cls dt 1
      else Inr dt)"

text \<open>
  A \<^verbatim>\<open>pandas\<close> \<^verbatim>\<open>Holiday\<close> rule given by month and day: its name, the month and day of
  its anchor, the optional first and last dates it applies to, and its observance function.
  An observance function returns the observed date, or \<^verbatim>\<open>None\<close> for no date.
\<close>

record Holiday =
  holiday_name :: string
  holiday_month :: int
  holiday_day :: int
  start_date :: "datetime option"
  end_date :: "datetime option"
  observance :: "datetime \<Rightarrow> error + datetime option"

text \<open>An observance function that always returns a date.\<close>

definition observed :: "(datetime \<Rightarrow> error + datetime) \<Rightarrow> datetime \<Rightarrow> error + datetime option" where
  "observed f dt = bind_result (f dt) (\<lambda>r. Inr (Some r))"

text \<open>A date written as an ISO string, \<^verbatim>\<open>"2021-04-02"\<close>, or built from its fields.\<close>

definition mk_date :: "int \<Rightarrow> int \<Rightarrow> int \<Rightarrow> datetime" where
  "mk_date y m d = \<lparr>year = y, month = m, day = d\<rparr>"

section \<open>The Taiwan calendar: \<^verbatim>\<open>exchange_calendar_xtai.py\<close>\<close>

text \<open>
  Modelled from the spec: the weekday constants imported from \<^verbatim>\<open>exchange_calendar.py\<close>,
  which is not among the sources. They are the \<^verbatim>\<open>weekday()\<close> numbers of the days they
  are named for.
\<close>

definition MONDAY :: int where "MONDAY = 0"
definition TUESDAY :: int where "TUESDAY = 1"
definition THURSDAY :: int where "THURSDAY = 3"
definition FRIDAY :: int where "FRIDAY = 4"
definition SATURDAY :: int where "SATURDAY = 5"
definition SUNDAY :: int where "SUNDAY = 6"

definition ONE_DAY :: timedelta where "ONE_DAY = 1"

definition check_after_2013 :: "datetime \<Rightarrow> bool" where
  "check_after_2013 dt = (year dt > 2013)"

definition check_between_2013_2024 :: "datetime \<Rightarrow> bool" where
  "check_between_2013_2024 dt = (2024 > year dt \<and> year dt > 2013)"

text \<open>
  \<^verbatim>\<open>weekend_makeup\<close>: the early return for years before 2014, then Sunday forward and
  Saturday back.
\<close>

definition weekend_makeup :: "datetime \<Rightarrow> error + datetime" where
  "weekend_makeup dt =
     (if year dt < 2014 then Inr dt
      else if weekday dt = SUNDAY then datetime_add dt ONE_DAY
      else if weekday dt = SATURDAY then datetime_sub dt ONE_DAY
      else Inr dt)"

text \<open>
  \<^verbatim>\<open>bridge_mon\<close> and \<^verbatim>\<open>bridge_fri\<close>: the date is shifted first, and both the weekday
  test and the checker read the shifted date. The first argument is the class of the date
  \<open>dt\<close>: a plain \<^verbatim>\<open>datetime\<close> as annotated, or the nanosecond \<^verbatim>\<open>Timestamp\<close> that a
  \<^verbatim>\<open>Holiday\<close> rule passes to its observance.
\<close>

definition bridge_mon ::
  "date_class \<Rightarrow> (datetime \<Rightarrow> bool) \<Rightarrow> datetime \<Rightarrow> error + datetime option" where
  "bridge_mon cls checker dt =
     (case date_sub cls dt ONE_DAY of
        Inl e \<Rightarrow> Inl e
      | Inr dt' \<Rightarrow> Inr (if weekday dt' = MONDAY \<and> checker dt' then Some dt' else None))"

definition bridge_fri ::
  "date_class \<Rightarrow> (datetime \<Rightarrow> bool) \<Rightarrow> datetime \<Rightarrow> error + datetime option" where
  "bridge_fri cls checker dt =
     (case date_add cls dt ONE_DAY of
        Inl e \<Rightarrow> Inl e
      | Inr dt' \<Rightarrow> Inr (if weekday dt' = FRIDAY \<and> checker dt' then Some dt' else None))"

definition bridge_mon_2014_thr_2023 :: "date_class \<Rightarrow> datetime \<Rightarrow> error + datetime option" where
  "bridge_mon_2014_thr_2023 cls = bridge_mon cls check_between_2013_2024"

definition bridge_fri_2014_thr_2023 :: "date_class \<Rightarrow> datetime \<Rightarrow> error + datetime option" where
  "bridge_fri_2014_thr_2023 cls = bridge_fri cls check_between_2013_2024"

text \<open>
  \<^verbatim>\<open>evalute_tomb_sweeping_workday_extra\<close>: the loop appends to \<^verbatim>\<open>dts\<close>, which starts
  empty. \<^verbatim>\<open>datetime.datetime(d.year, 4, n)\<close> builds a date in the year of an existing
  date, so the constructor's range check cannot fail.
\<close>

fun tomb_sweeping_loop :: "datetime list \<Rightarrow> datetime list \<Rightarrow> datetime list" where
  "tomb_sweeping_loop dts [] = dts"
| "tomb_sweeping_loop dts (d # ds) =
     tomb_sweeping_loop
       (if year d > 2012 \<and> month d = 4 \<and> day d = 4
        then (if weekday \<lparr>year = year d, month = 4, day = 4\<rparr> = THURSDAY
              then dts @ [\<lparr>year = year d, month = 4, day = 5\<rparr>]
              else dts @ [\<lparr>year = year d, month = 4, day = 3\<rparr>])
        else dts)
       ds"

definition evalute_tomb_sweeping_workday_extra :: "datetime list \<Rightarrow> datetime list" where
  "evalute_tomb_sweeping_workday_extra dt = tomb_sweeping_loop [] dt"

text \<open>
  \<^verbatim>\<open>before_chinese_new_year_offset\<close> and \<^verbatim>\<open>chinese_new_year_offset\<close>: each maps one
  \<^verbatim>\<open>pandas\<close> observance function over the dates it is given.
\<close>

definition before_chinese_new_year_offset :: "datetime list \<Rightarrow> error + datetime list" where
  "before_chinese_new_year_offset holidays =
     map_result (\<lambda>d. previous_friday NanosecondTimestamp d) holidays"

definition chinese_new_year_offset :: "datetime list \<Rightarrow> error + datetime list" where
  "chinese_new_year_offset holidays =
     map_result (\<lambda>d. next_monday NanosecondTimestamp d) holidays"

text \<open>
  The Chinese New Year cluster, computed when the module is loaded. The table
  \<^verbatim>\<open>chinese_lunar_new_year_dates\<close> comes from \<^verbatim>\<open>lunisolar_holidays.py\<close>, which is not
  among the sources: it is the parameter \<open>cny\<close>.
\<close>

definition chinese_new_year :: "datetime list \<Rightarrow> error + datetime list" where
  "chinese_new_year cny = chinese_new_year_offset cny"

definition chinese_new_years_eve :: "datetime list \<Rightarrow> error + datetime list" where
  "chinese_new_years_eve cny =
     bind_result (chinese_new_year cny) (\<lambda>main.
     bind_result (index_sub main ONE_DAY) before_chinese_new_year_offset)"

definition chinese_new_years_eve_2 :: "datetime list \<Rightarrow> error + datetime list" where
  "chinese_new_years_eve_2 cny =
     bind_result (chinese_new_years_eve cny) (\<lambda>eve.
     bind_result (index_sub eve ONE_DAY) before_chinese_new_year_offset)"

definition chinese_new_year_2 :: "datetime list \<Rightarrow> error + datetime list" where
  "chinese_new_year_2 cny =
     bind_result (chinese_new_year cny) (\<lambda>main.
     bind_result (index_add main ONE_DAY) chinese_new_year_offset)"

definition chinese_new_year_3 :: "datetime list \<Rightarrow> error + datetime list" where
  "chinese_new_year_3 cny =
     bind_result (chinese_new_year_2 cny) (\<lambda>second.
     bind_result (index_add second ONE_DAY) chinese_new_year_offset)"

text \<open>
  The lunar-offset stage in the words of the specification: the anchor is shifted by a fixed
  number of days, and the nearest-workday rule is applied to the shifted date.
\<close>

definition lunar_offset_spec :: "timedelta \<Rightarrow> datetime list \<Rightarrow> error + datetime list" where
  "lunar_offset_spec delta anchors =
     map_result
       (\<lambda>a. bind_result (date_add NanosecondTimestamp a delta)
              (nearest_workday NanosecondTimestamp))
       anchors"

text \<open>
  What the chained stages do, as relations between a stage's input date \<open>p\<close> and its output
  date \<open>r\<close>. \<open>next_monday_shift w\<close> and \<open>previous_friday_shift w\<close> are the numbers of days by
  which a date of weekday \<open>w\<close> is moved off the weekend.
\<close>

definition next_monday_shift :: "int \<Rightarrow> int" where
  "next_monday_shift w = (if w = SATURDAY then 2 else if w = SUNDAY then 1 else 0)"

definition previous_friday_shift :: "int \<Rightarrow> int" where
  "previous_friday_shift w = (if w = SATURDAY then - 1 else if w = SUNDAY then - 2 else 0)"

definition moved_forward :: "int \<Rightarrow> datetime \<Rightarrow> datetime \<Rightarrow> bool" where
  "moved_forward delta p r =
     (valid_datetime r \<and> weekday r < SATURDAY
      \<and> toordinal r = toordinal p + delta + next_monday_shift ((weekday p + delta) mod 7))"

definition moved_back :: "int \<Rightarrow> datetime \<Rightarrow> datetime \<Rightarrow> bool" where
  "moved_back delta p r =
     (valid_datetime r \<and> weekday r < SATURDAY
      \<and> toordinal r = toordinal p - delta + previous_friday_shift ((weekday p - delta) mod 7))"

text \<open>
  \<^verbatim>\<open>nearest_workday_2013_thr_2023\<close> and its map over an index.
\<close>

definition nearest_workday_2013_thr_2023 :: "date_class \<Rightarrow> datetime \<Rightarrow> error + datetime" where
  "nearest_workday_2013_thr_2023 cls dt =
     (if 2024 > year dt \<and> year dt > 2013 then nearest_workday cls dt else Inr dt)"

definition manual_nearest_workday_2013_thr_2023 :: "datetime list \<Rightarrow> error + datetime list" where
  "manual_nearest_workday_2013_thr_2023 holidays =
     map_result (\<lambda>d. nearest_workday_2013_thr_2023 NanosecondTimestamp d) holidays"

text \<open>
  \<^verbatim>\<open>manual_extra_days_07_thr_2023\<close>: the Friday after a Thursday holiday and the Monday
  before a Tuesday holiday, in the years 2007 to 2023; the Fridays come first.
\<close>

definition manual_extra_days_07_thr_2023 :: "datetime list \<Rightarrow> error + datetime list" where
  "manual_extra_days_07_thr_2023 holidays =
     bind_result
       (map_result (\<lambda>d. date_add NanosecondTimestamp d ONE_DAY)
          (filter (\<lambda>d. weekday d = THURSDAY \<and> 2024 > year d \<and> year d > 2006) holidays))
       (\<lambda>friday_extras.
     bind_result
       (map_result (\<lambda>d. date_sub NanosecondTimestamp d ONE_DAY)
          (filter (\<lambda>d. weekday d = TUESDAY \<and> 2024 > year d \<and> year d > 2006) holidays))
       (\<lambda>monday_extras. Inr (friday_extras @ monday_extras)))"

definition holidays_weekend_makeup :: "datetime list \<Rightarrow> error + datetime list" where
  "holidays_weekend_makeup holidays = map_result (\<lambda>d. weekend_makeup d) holidays"

text \<open>
  The recurring rules. A rule passes nanosecond \<^verbatim>\<open>Timestamp\<close> dates to its observance.
  \<^verbatim>\<open>new_years_day\<close> and \<^verbatim>\<open>european_labour_day\<close> come from
  \<^verbatim>\<open>common_holidays.py\<close>, which is not among the sources.

  Modelled from the spec: \<^verbatim>\<open>new_years_day\<close> is the rule for 1 January and
  \<^verbatim>\<open>european_labour_day\<close> the rule for 1 May, each with the observance it is given and no
  first or last date.
\<close>

definition new_years_day :: "(datetime \<Rightarrow> error + datetime option) \<Rightarrow> Holiday" where
  "new_years_day obs =
     \<lparr>holiday_name = ''New Year's Day'', holiday_month = 1, holiday_day = 1,
      start_date = None, end_date = None, observance = obs\<rparr>"

definition european_labour_day :: "(datetime \<Rightarrow> error + datetime option) \<Rightarrow> Holiday" where
  "european_labour_day obs =
     \<lparr>holiday_name = ''Labour Day'', holiday_month = 5, holiday_day = 1,
      start_date = None, end_date = None, observance = obs\<rparr>"

definition NewYearsDay :: Holiday where
  "NewYearsDay = new_years_day (observed weekend_makeup)"

definition NewYearsDayExtraMon :: Holiday where
  "NewYearsDayExtraMon = new_years_day (bridge_mon NanosecondTimestamp check_after_2013)"

definition NewYearsDayExtraFri :: Holiday where
  "NewYearsDayExtraFri = new_years_day (bridge_fri NanosecondTimestamp check_after_2013)"

definition PeaceMemorialDay :: Holiday where
  "PeaceMemorialDay =
     \<lparr>holiday_name = ''Peace Memorial Day'', holiday_month = 2, holiday_day = 28,
      start_date = None, end_date = None, observance = observed weekend_makeup\<rparr>"

definition PeaceMemorialDayExtraMon :: Holiday where
  "PeaceMemorialDayExtraMon =
     \<lparr>holiday_name = ''Peace Memorial Day extra Monday'', holiday_month = 2, holiday_day = 28,
      start_date = None, end_date = None, observance = bridge_mon_2014_thr_2023 NanosecondTimestamp\<rparr>"

definition PeaceMemorialDayExtraFri :: Holiday where
  "PeaceMemorialDayExtraFri =
     \<lparr>holiday_name = ''Peace Memorial Day extra Friday'', holiday_month = 2, holiday_day = 28,
      start_date = None, end_date = None, observance = bridge_fri_2014_thr_2023 NanosecondTimestamp\<rparr>"

definition WomenAndChildrensDay :: Holiday where
  "WomenAndChildrensDay =
     \<lparr>holiday_name = ''Women and Children's Day'', holiday_month = 4, holiday_day = 4,
      start_date = Some (mk_date 2011 1 1), end_date = None,
      observance = observed weekend_makeup\<rparr>"

definition WomenAndChildrensDayExtraMon :: Holiday where
  "WomenAndChildrensDayExtraMon =
     \<lparr>holiday_name = ''Women and Children's Day extra Monday'', holiday_month = 4,
      holiday_day = 4, start_date = Some (mk_date 2011 1 1), end_date = None,
      observance = bridge_mon_2014_thr_2023 NanosecondTimestamp\<rparr>"

definition WomenAndChildrensDayExtraFri :: Holiday where
  "WomenAndChildrensDayExtraFri =
     \<lparr>holiday_name = ''Women and Children's Day extra Friday'', holiday_month = 4,
      holiday_day = 4, start_date = Some (mk_date 2011 1 1), end_date = None,
      observance = bridge_fri_2014_thr_2023 NanosecondTimestamp\<rparr>"

definition LabourDay :: Holiday where
  "LabourDay =
     european_labour_day (observed (nearest_workday_2013_thr_2023 NanosecondTimestamp))"

definition NationalDay :: Holiday where
  "NationalDay =
     \<lparr>holiday_name = ''National Day of the Republic of China'', holiday_month = 10,
      holiday_day = 10, start_date = None, end_date = None,
      observance = observed weekend_makeup\<rparr>"

definition NationalDayExtraMon :: Holiday where
  "NationalDayExtraMon =
     \<lparr>holiday_name = ''National Day of the Republic of China extra Monday'',
      holiday_month = 10, holiday_day = 10, start_date = None, end_date = None,
      observance = bridge_mon_2014_thr_2023 NanosecondTimestamp\<rparr>"

definition NationalDayExtraFri :: Holiday where
  "NationalDayExtraFri =
     \<lparr>holiday_name = ''National Day of the Republic of China extra Friday'',
      holiday_month = 10, holiday_day = 10, start_date = None, end_date = None,
      observance = bridge_fri_2014_thr_2023 NanosecondTimestamp\<rparr>"

text \<open>\<^verbatim>\<open>XTAIExchangeCalendar.regular_holidays\<close>, in the order of the source.\<close>

definition regular_holidays :: "Holiday list" where
  "regular_holidays =
     [NewYearsDay, NewYearsDayExtraMon, NewYearsDayExtraFri,
      PeaceMemorialDay, PeaceMemorialDayExtraMon, PeaceMemorialDayExtraFri,
      WomenAndChildrensDay, WomenAndChildrensDayExtraMon, WomenAndChildrensDayExtraFri,
      LabourDay,
      NationalDay, NationalDayExtraMon, NationalDayExtraFri]"

text \<open>The literal date tables.\<close>

definition chinese_new_year_extras :: "datetime list" where
  "chinese_new_year_extras =
   [
    mk_date 2002 2 7, mk_date 2002 2 15, mk_date 2003 1 29, mk_date 2004 1 19,
     mk_date 2005 2 4, mk_date 2006 2 2, mk_date 2007 2 22, mk_date 2007 2 23,
     mk_date 2008 2 4, mk_date 2009 1 29, mk_date 2009 1 30, mk_date 2010 2 18,
     mk_date 2010 2 19, mk_date 2011 1 31, mk_date 2012 1 26, mk_date 2012 1 27,
     mk_date 2013 2 14, mk_date 2013 2 15, mk_date 2014 1 28, mk_date 2015 2 16,
     mk_date 2016 2 11, mk_date 2016 2 12, mk_date 2017 1 25, mk_date 2018 2 13,
     mk_date 2019 1 31, mk_date 2019 2 8, mk_date 2020 1 21, mk_date 2020 1 22,
     mk_date 2021 2 8, mk_date 2021 2 9, mk_date 2022 1 27, mk_date 2023 1 26,
     mk_date 2023 1 27]"

definition extra_holidays :: "datetime list" where
  "extra_holidays =
   [
    mk_date 2021 4 2, mk_date 2020 4 2, mk_date 2016 4 5, mk_date 2012 12 31,
     mk_date 2012 2 27, mk_date 2009 1 2, mk_date 2006 10 9, mk_date 2005 9 1,
     mk_date 2018 4 6, mk_date 2007 4 6]"

definition typhoons :: "datetime list" where
  "typhoons =
   [
    mk_date 2024 10 3, mk_date 2024 10 2, mk_date 2024 7 25, mk_date 2024 7 24,
     mk_date 2019 9 30, mk_date 2019 8 9, mk_date 2016 9 28, mk_date 2016 9 27,
     mk_date 2016 7 8, mk_date 2015 9 29, mk_date 2015 7 10, mk_date 2014 7 23,
     mk_date 2013 8 21, mk_date 2012 8 2, mk_date 2009 8 7, mk_date 2008 9 29,
     mk_date 2008 7 28, mk_date 2007 9 18, mk_date 2005 8 5, mk_date 2005 7 18,
     mk_date 2004 10 25, mk_date 2004 8 25, mk_date 2004 8 24, mk_date 2002 9 6]"

text \<open>
  The four lunisolar tables of \<^verbatim>\<open>lunisolar_holidays.py\<close>, which is not among the sources,
  are parameters of everything computed from them.
\<close>

record lunisolar =
  chinese_lunar_new_year_dates :: "datetime list"
  qingming_festival_dates :: "datetime list"
  dragon_boat_festival_dates :: "datetime list"
  mid_autumn_festival_dates :: "datetime list"

text \<open>
  \<^verbatim>\<open>XTAIExchangeCalendar.adhoc_holidays\<close>. The seventeen lists are computed when the
  module is loaded, in the order in which the source defines them, and chained in the order
  of the property.
\<close>

definition adhoc_holidays :: "lunisolar \<Rightarrow> error + datetime list" where
  "adhoc_holidays t =
     bind_result (chinese_new_year (chinese_lunar_new_year_dates t)) (\<lambda>cny.
     bind_result (chinese_new_years_eve (chinese_lunar_new_year_dates t)) (\<lambda>eve.
     bind_result (chinese_new_years_eve_2 (chinese_lunar_new_year_dates t)) (\<lambda>eve_2.
     bind_result (chinese_new_year_2 (chinese_lunar_new_year_dates t)) (\<lambda>cny_2.
     bind_result (chinese_new_year_3 (chinese_lunar_new_year_dates t)) (\<lambda>cny_3.
     bind_result (manual_nearest_workday_2013_thr_2023 (qingming_festival_dates t))
       (\<lambda>tomb_sweeping_day.
     bind_result (Inr (evalute_tomb_sweeping_workday_extra (qingming_festival_dates t)))
       (\<lambda>tomb_sweeping_day_workday_extras.
     bind_result (holidays_weekend_makeup (qingming_festival_dates t))
       (\<lambda>tomb_sweeping_day_weekend_extras.
     bind_result (manual_nearest_workday_2013_thr_2023 (dragon_boat_festival_dates t))
       (\<lambda>dragon_boat_festival.
     bind_result (manual_extra_days_07_thr_2023 dragon_boat_festival)
       (\<lambda>dragon_boat_festival_workday_extras.
     bind_result (holidays_weekend_makeup (dragon_boat_festival_dates t))
       (\<lambda>dragon_boat_festival_weekend_extras.
     bind_result (manual_nearest_workday_2013_thr_2023 (mid_autumn_festival_dates t))
       (\<lambda>mid_autumn_festival.
     bind_result (manual_extra_days_07_thr_2023 mid_autumn_festival)
       (\<lambda>mid_autumn_festival_workday_extras.
     bind_result (holidays_weekend_makeup (mid_autumn_festival_dates t))
       (\<lambda>mid_autumn_festival_weekend_extras.
     Inr (extra_holidays @ typhoons @ eve @ eve_2 @ cny @ cny_2 @ cny_3
          @ chinese_new_year_extras
          @ tomb_sweeping_day @ tomb_sweeping_day_workday_extras
          @ tomb_sweeping_day_weekend_extras
          @ dragon_boat_festival @ dragon_boat_festival_workday_extras
          @ dragon_boat_festival_weekend_extras
          @ mid_autumn_festival @ mid_autumn_festival_workday_extras
          @ mid_autumn_festival_weekend_extras)))))))))))))))"

section \<open>Holiday rules and their union\<close>

text \<open>
  Modelled from the spec: the Holiday Rule of the data model and its evaluation, which the
  sources leave to \<^verbatim>\<open>exchange_calendar.py\<close> and \<^verbatim>\<open>pandas\<close>. A rule is recurring or an
  explicit list of dates. A recurring rule enumerates its anchor dates across the date range
  intersected with the rule's own first and last dates, applies its observance to each
  anchor and collects every date produced. An ad-hoc rule gives its dates within the range.
  The holiday set of a calendar is the union over all its rules; a date produced twice is one
  holiday, so the set is the set of the dates collected.
\<close>

datatype HolidayRule = Recurring Holiday | AdHoc "datetime list"

definition date_le :: "datetime \<Rightarrow> datetime \<Rightarrow> bool" where
  "date_le a b = (toordinal a \<le> toordinal b)"

definition anchor_dates :: "Holiday \<Rightarrow> datetime \<Rightarrow> datetime \<Rightarrow> datetime list" where
  "anchor_dates h s e =
     filter
       (\<lambda>a. valid_datetime a \<and> date_le s a \<and> date_le a e
            \<and> (case start_date h of None \<Rightarrow> True | Some f \<Rightarrow> date_le f a)
            \<and> (case end_date h of None \<Rightarrow> True | Some u \<Rightarrow> date_le a u))
       (map (\<lambda>y. mk_date y (holiday_month h) (holiday_day h)) [year s..year e])"

definition produced :: "datetime option list \<Rightarrow> datetime list" where
  "produced os = concat (map (\<lambda>r. case r of None \<Rightarrow> [] | Some d \<Rightarrow> [d]) os)"

fun evaluate :: "HolidayRule \<Rightarrow> datetime \<Rightarrow> datetime \<Rightarrow> error + datetime list" where
  "evaluate (Recurring h) s e =
     bind_result (map_result (observance h) (anchor_dates h s e)) (\<lambda>os. Inr (produced os))"
| "evaluate (AdHoc ds) s e = Inr (filter (\<lambda>d. date_le s d \<and> date_le d e) ds)"

definition holiday_dates :: "HolidayRule list \<Rightarrow> datetime \<Rightarrow> datetime \<Rightarrow> error + datetime list" where
  "holiday_dates rules s e =
     bind_result (map_result (\<lambda>r. evaluate r s e) rules) (\<lambda>dss. Inr (concat dss))"

text \<open>
  A date that is at least \<open>K\<close> days away from both ends of the range of a nanosecond
  \<^verbatim>\<open>Timestamp\<close>.
\<close>

definition in_margin :: "int \<Rightarrow> datetime \<Rightarrow> bool" where
  "in_margin K d =
     (valid_datetime d \<and> toordinal Timestamp_min_day + K \<le> toordinal d
      \<and> toordinal d + K \<le> toordinal Timestamp_max_day)"

section \<open>Instants\<close>

text \<open>
  A nanosecond \<^verbatim>\<open>pandas\<close> \<^verbatim>\<open>Timestamp\<close> as an instant: its number of nanoseconds since
  the epoch, a 64-bit integer other than the least one, which is \<^verbatim>\<open>NaT\<close>. A
  \<^verbatim>\<open>Timedelta\<close> is a number of nanoseconds. Adding a \<^verbatim>\<open>Timedelta\<close> to a \<^verbatim>\<open>Timestamp\<close>
  raises \<^verbatim>\<open>OutOfBoundsDatetime\<close> when the sum is not a 64-bit integer; a sum that is the
  least 64-bit integer is returned, as \<^verbatim>\<open>NaT\<close>.
\<close>

type_synonym Timestamp = int

type_synonym Timedelta = int

definition valid_Timestamp :: "Timestamp \<Rightarrow> bool" where
  "valid_Timestamp t = (- (2 ^ 63) < t \<and> t < 2 ^ 63)"

definition Timestamp_add :: "Timestamp \<Rightarrow> Timedelta \<Rightarrow> error + Timestamp" where
  "Timestamp_add t td =
     (if - (2 ^ 63) \<le> t + td \<and> t + td < 2 ^ 63 then Inr (t + td)
      else Inl OutOfBoundsDatetime)"

text \<open>\<^verbatim>\<open>Timedelta(hours=h)\<close>: \<open>h\<close> hours in nanoseconds, rounded to a whole number.\<close>

definition Timedelta_hours :: "rat \<Rightarrow> Timedelta" where
  "Timedelta_hours h = round (h * 3600000000000)"

section \<open>The US futures calendar: \<^verbatim>\<open>us_futures_calendar.py\<close>\<close>

definition FUTURES_OPEN_TIME_OFFSET :: rat where
  "FUTURES_OPEN_TIME_OFFSET = 12.5"

definition FUTURES_CLOSE_TIME_OFFSET :: rat where
  "FUTURES_CLOSE_TIME_OFFSET = - 1"

definition execution_time_from_open :: "Timestamp \<Rightarrow> error + Timestamp" where
  "execution_time_from_open open_dates =
     Timestamp_add open_dates (Timedelta_hours FUTURES_OPEN_TIME_OFFSET)"

definition execution_time_from_close :: "Timestamp \<Rightarrow> error + Timestamp" where
  "execution_time_from_close close_dates =
     Timestamp_add close_dates (Timedelta_hours FUTURES_CLOSE_TIME_OFFSET)"

section \<open>Calendar errors: \<^verbatim>\<open>errors.py\<close>\<close>

text \<open>
  The attributes of a calendar that \<^verbatim>\<open>NotSessionError\<close> reads.
\<close>

record ExchangeCalendar =
  name :: string
  first_session :: Timestamp
  last_session :: Timestamp

record NotSessionError =
  calendar :: ExchangeCalendar
  ts :: Timestamp
  param_name :: "string option"

text \<open>
  \<^verbatim>\<open>NotSessionError.__str__\<close>. How a \<^verbatim>\<open>Timestamp\<close> is written in an f-string belongs to
  \<^verbatim>\<open>pandas\<close>: it is the parameter \<open>str\<close>. The character \<open>CHR 0x27\<close> is the apostrophe.
\<close>

definition NotSessionError_str :: "(Timestamp \<Rightarrow> string) \<Rightarrow> NotSessionError \<Rightarrow> string" where
  "NotSessionError_str str e =
     (let msg =
        (case param_name e of
           Some p \<Rightarrow>
             ''Parameter `'' @ p @ ''` takes a session label''
             @ '' although received input that parsed to '' @ [CHR 0x27] @ str (ts e)
             @ [CHR 0x27] @ '' which''
         | None \<Rightarrow> [CHR 0x27] @ str (ts e) @ [CHR 0x27])
      in
        if ts e < first_session (calendar e) then
          msg @ '' is earlier than the first session of calendar''
              @ '' '' @ [CHR 0x27] @ name (calendar e) @ [CHR 0x27] @ '' ('' @ [CHR 0x27]
              @ str (first_session (calendar e)) @ [CHR 0x27] @ '').''
        else if ts e > last_session (calendar e) then
          msg @ '' is later than the last session of calendar''
              @ '' '' @ [CHR 0x27] @ name (calendar e) @ [CHR 0x27] @ '' ('' @ [CHR 0x27]
              @ str (last_session (calendar e)) @ [CHR 0x27] @ '').''
        else
          msg @ '' is not a session of calendar '' @ [CHR 0x27] @ name (calendar e)
              @ [CHR 0x27] @ ''.'')"

text \<open>
  The parts of the message: what is said before the case, and the text of each of the three
  cases.
\<close>

definition message_head :: "(Timestamp \<Rightarrow> string) \<Rightarrow> NotSessionError \<Rightarrow> string" where
  "message_head str e =
     (case param_name e of
        Some p \<Rightarrow>
          ''Parameter `'' @ p @ ''` takes a session label although received input that parsed to ''
          @ [CHR 0x27] @ str (ts e) @ [CHR 0x27] @ '' which''
      | None \<Rightarrow> [CHR 0x27] @ str (ts e) @ [CHR 0x27])"

definition earlier_text :: "(Timestamp \<Rightarrow> string) \<Rightarrow> ExchangeCalendar \<Rightarrow> string" where
  "earlier_text str c =
     '' is earlier than the first session of calendar '' @ [CHR 0x27] @ name c @ [CHR 0x27]
     @ '' ('' @ [CHR 0x27] @ str (first_session c) @ [CHR 0x27] @ '').''"

definition later_text :: "(Timestamp \<Rightarrow> string) \<Rightarrow> ExchangeCalendar \<Rightarrow> string" where
  "later_text str c =
     '' is later than the last session of calendar '' @ [CHR 0x27] @ name c @ [CHR 0x27]
     @ '' ('' @ [CHR 0x27] @ str (last_session c) @ [CHR 0x27] @ '').''"

definition not_session_text :: "ExchangeCalendar \<Rightarrow> string" where
  "not_session_text c =
     '' is not a session of calendar '' @ [CHR 0x27] @ name c @ [CHR 0x27] @ ''.''"

text \<open>
  \<^verbatim>\<open>CalendarError\<close>. The class attribute \<^verbatim>\<open>msg\<close> is \<^verbatim>\<open>None\<close> in the base class and a
  format string in each subclass; \<^verbatim>\<open>kwargs\<close> are the keyword arguments of the
  constructor. \<^verbatim>\<open>str.format\<close> belongs to Python: it is the parameter \<open>format\<close>, which may
  raise. Calling \<^verbatim>\<open>format\<close> on \<^verbatim>\<open>None\<close> raises \<^verbatim>\<open>AttributeError\<close>.
\<close>

record CalendarError =
  msg :: "string option"
  kwargs :: "(string \<times> string) list"
  message_cache :: "string option"




section \<open>Sessions and the schedule builder\<close>

text \<open>
  Modelled from the spec: the Session of the data model. The construction of sessions
  belongs to \<^verbatim>\<open>exchange_calendar.py\<close>, which is not among the sources. A session has its
  trading date, its open and close instants and the flag for special hours. An instant is a
  number of seconds since the epoch, in UTC.
\<close>

type_synonym instant = int

record Session =
  session_date :: datetime
  open_instant :: instant
  close_instant :: instant
  is_special :: bool

text \<open>
  Modelled from the spec: the Calendar Configuration of the data model, the external input
  of the builder. It holds the weekly trading-day pattern (which \<^verbatim>\<open>weekday()\<close> numbers
  trade), the holiday rules, the open and close time-of-day schedules, each a list of
  sub-ranges given by an optional first date and a time of day, the session day-offset of
  the open, the rules of the time zone (the offset from UTC, in seconds, at a local
  wall-clock second) and the special-hours overrides keyed by date. A time of day is a
  number of seconds after midnight.
\<close>

record CalendarConfiguration =
  weekmask :: "int \<Rightarrow> bool"
  holiday_rules :: "HolidayRule list"
  open_times :: "(datetime option \<times> int) list"
  close_times :: "(datetime option \<times> int) list"
  open_offset :: int
  utc_offset :: "int \<Rightarrow> int"
  special_opens :: "(datetime \<times> int) list"
  special_closes :: "(datetime \<times> int) list"

text \<open>\<^verbatim>\<open>datetime.time(hh, mm)\<close> as a time of day.\<close>

definition time :: "int \<Rightarrow> int \<Rightarrow> int" where
  "time hh mm = hh * 3600 + mm * 60"

text \<open>
  Modelled from the spec: step 1 of the Schedule Builder, every calendar date from \<open>start\<close>
  to \<open>end\<close>.
\<close>

fun days_from :: "datetime \<Rightarrow> nat \<Rightarrow> datetime list" where
  "days_from d 0 = []"
| "days_from d (Suc n) = d # days_from (next_day d) n"

definition date_range :: "datetime \<Rightarrow> datetime \<Rightarrow> datetime list" where
  "date_range s e = days_from s (nat (toordinal e - toordinal s + 1))"

text \<open>
  Modelled from the spec: the active sub-range of a time-of-day schedule for a date, the
  last sub-range that has begun.
\<close>

fun active_time :: "(datetime option \<times> int) list \<Rightarrow> datetime \<Rightarrow> int option" where
  "active_time [] d = None"
| "active_time ((first, t) # rest) d =
     (case active_time rest d of
        Some t' \<Rightarrow> Some t'
      | None \<Rightarrow>
          (case first of
             None \<Rightarrow> Some t
           | Some f \<Rightarrow> if date_le f d then Some t else None))"

text \<open>
  Modelled from the spec: converting a local time of day on a date to an absolute instant
  with the rules of the zone. Day 719163 is 1 January 1970.
\<close>

definition to_instant :: "(int \<Rightarrow> int) \<Rightarrow> datetime \<Rightarrow> int \<Rightarrow> instant" where
  "to_instant tz d t =
     (let local = (toordinal d - 719163) * 86400 + t in local - tz local)"

text \<open>
  Modelled from the spec: steps 4 and 5 of the Schedule Builder for one trading date. The
  open is on the trading date shifted by the session day-offset, the close on the trading
  date; an override replaces the time of day and marks the session special.
\<close>

definition session_of :: "CalendarConfiguration \<Rightarrow> datetime \<Rightarrow> error + Session" where
  "session_of cfg d =
     (case active_time (open_times cfg) d of
        None \<Rightarrow> Inl ConstructionError
      | Some ot \<Rightarrow>
          (case active_time (close_times cfg) d of
             None \<Rightarrow> Inl ConstructionError
           | Some ct \<Rightarrow>
               bind_result (date_add NanosecondTimestamp d (open_offset cfg)) (\<lambda>open_day.
                 Inr \<lparr>session_date = d,
                      open_instant =
                        to_instant (utc_offset cfg) open_day
                          (case map_of (special_opens cfg) d of None \<Rightarrow> ot | Some t \<Rightarrow> t),
                      close_instant =
                        to_instant (utc_offset cfg) d
                          (case map_of (special_closes cfg) d of None \<Rightarrow> ct | Some t \<Rightarrow> t),
                      is_special =
                        (d \<in> fst ` set (special_opens cfg) \<union> fst ` set (special_closes cfg))\<rparr>)))"

text \<open>
  Modelled from the spec: the invariants asserted in step 6. Session dates increase
  strictly, every session opens before it closes, every override names a session date, and
  no two sub-ranges of a schedule begin on the same date.
\<close>

definition session_index_invariants :: "CalendarConfiguration \<Rightarrow> Session list \<Rightarrow> bool" where
  "session_index_invariants cfg idx =
     (sorted_wrt (\<lambda>a b. toordinal (session_date a) < toordinal (session_date b)) idx
      \<and> list_all (\<lambda>x. open_instant x < close_instant x) idx
      \<and> list_all (\<lambda>d. d \<in> session_date ` set idx)
           (map fst (special_opens cfg) @ map fst (special_closes cfg))
      \<and> distinct (map fst (open_times cfg)) \<and> distinct (map fst (close_times cfg)))"

text \<open>
  Modelled from the spec: the Schedule Builder. The dates of the range that match the weekly
  pattern and are not in the holiday set become sessions; construction fails with a
  \<^verbatim>\<open>ConstructionError\<close> when the invariants do not hold.
\<close>

definition build :: "CalendarConfiguration \<Rightarrow> datetime \<Rightarrow> datetime \<Rightarrow> error + Session list" where
  "build cfg s e =
     bind_result (holiday_dates (holiday_rules cfg) s e) (\<lambda>H.
     bind_result
       (map_result (session_of cfg)
          (filter (\<lambda>d. weekmask cfg (weekday d) \<and> d \<notin> set H) (date_range s e)))
       (\<lambda>idx. if session_index_invariants cfg idx then Inr idx else Inl ConstructionError))"

text \<open>
  The configuration of \<^verbatim>\<open>QuantopianUSFuturesCalendar\<close>: opens at 18:01 and closes at 18:00
  \<^verbatim>\<open>America/New_York\<close>, with \<^verbatim>\<open>open_offset = -1\<close> and no special hours. Its weekly
  pattern is inherited, its holiday rules come from \<^verbatim>\<open>us_holidays.py\<close> and the rules of
  its zone from the zone database, none of them among the sources: they are the parameters
  \<open>wm\<close>, \<open>rules\<close> and \<open>tz\<close>.
\<close>

definition QuantopianUSFuturesCalendar ::
  "(int \<Rightarrow> bool) \<Rightarrow> HolidayRule list \<Rightarrow> (int \<Rightarrow> int) \<Rightarrow> CalendarConfiguration" where
  "QuantopianUSFuturesCalendar wm rules tz =
     \<lparr>weekmask = wm, holiday_rules = rules,
      open_times = [(None, time 18 1)], close_times = [(None, time 18 0)],
      open_offset = - 1, utc_offset = tz, special_opens = [], special_closes = []\<rparr>"

text \<open>
  The configuration of \<^verbatim>\<open>XTAIExchangeCalendar\<close>: opens at 9:00 and closes at 13:30
  \<^verbatim>\<open>Asia/Taipei\<close>, on the trading date, with the thirteen recurring rules and the ad-hoc
  dates \<open>adhoc\<close>, the value of \<open>adhoc_holidays\<close>. Its weekly pattern is inherited and the
  rules of its zone come from the zone database: they are the parameters \<open>wm\<close> and \<open>tz\<close>.
\<close>

definition XTAIExchangeCalendar ::
  "(int \<Rightarrow> bool) \<Rightarrow> (int \<Rightarrow> int) \<Rightarrow> datetime list \<Rightarrow> CalendarConfiguration" where
  "XTAIExchangeCalendar wm tz adhoc =
     \<lparr>weekmask = wm, holiday_rules = map Recurring regular_holidays @ [AdHoc adhoc],
      open_times = [(None, time 9 0)], close_times = [(None, time 13 30)],
      open_offset = 0, utc_offset = tz, special_opens = [], special_closes = []\<rparr>"

section \<open>Facts about the date arithmetic\<close>

lemma month_cases:
  assumes "1 \<le> (m::int)" "m \<le> 12"
  shows "m = 1 \<or> m = 2 \<or> m = 3 \<or> m = 4 \<or> m = 5 \<or> m = 6 \<or> m = 7 \<or> m = 8 \<or> m = 9
         \<or> m = 10 \<or> m = 11 \<or> m = 12"
  using assms by arith

lemma div_step:
  assumes "0 < (k::int)"
  shows "y div k = (y - 1) div k + (if y mod k = 0 then 1 else 0)"
proof -
  have y: "y = k * (y div k) + y mod k" by simp
  have r: "0 \<le> y mod k" "y mod k < k" using assms by simp_all
  show ?thesis
  proof (cases "y mod k = 0")
    case True
    with y have "y - 1 = k * (y div k - 1) + (k - 1)" by (simp add: algebra_simps)
    then have "(y - 1) div k = (k * (y div k - 1) + (k - 1)) div k" by (rule arg_cong)
    also have "\<dots> = y div k - 1"
      using assms by (simp add: div_pos_pos_trivial)
    finally show ?thesis using True by simp
  next
    case False
    with r have r': "0 \<le> y mod k - 1" "y mod k - 1 < k" by simp_all
    from y have "y - 1 = k * (y div k) + (y mod k - 1)" by simp
    then have "(y - 1) div k = (k * (y div k) + (y mod k - 1)) div k" by (rule arg_cong)
    also have "\<dots> = y div k"
      using assms r' by (simp add: div_pos_pos_trivial)
    finally show ?thesis using False by simp
  qed
qed

lemma mod_zero_trans:
  fixes y :: int
  assumes "a dvd b" "y mod b = 0"
  shows "y mod a = 0"
proof -
  from assms(2) have "b dvd y" by (rule mod_0_imp_dvd)
  with assms(1) have "a dvd y" by (rule dvd_trans)
  then show ?thesis by (rule dvd_imp_mod_0)
qed

lemma leap_count:
  assumes "P100 \<Longrightarrow> P4" "P400 \<Longrightarrow> P100"
  shows "(if P4 then 1 else 0) - (if P100 then 1 else 0) + (if P400 then 1 else (0::int))
         = (if P4 \<and> (\<not> P100 \<or> P400) then 1 else 0)"
proof (cases P400)
  case True
  with assms have "P100" "P4" by simp_all
  with True show ?thesis by simp
next
  case False
  show ?thesis
  proof (cases P100)
    case True
    with assms have "P4" by simp
    with True False show ?thesis by simp
  next
    case n: False
    with False show ?thesis by simp
  qed
qed

lemma days_before_year_Suc:
  "days_before_year (y + 1) = days_before_year y + (if is_leap y then 366 else 365)"
proof -
  define q4 where "q4 = (y - 1) div 4"
  define q100 where "q100 = (y - 1) div 100"
  define q400 where "q400 = (y - 1) div 400"
  define l4 :: int where "l4 = (if y mod 4 = 0 then 1 else 0)"
  define l100 :: int where "l100 = (if y mod 100 = 0 then 1 else 0)"
  define l400 :: int where "l400 = (if y mod 400 = 0 then 1 else 0)"
  define l :: int where "l = (if is_leap y then 1 else 0)"
  have a: "y div 4 = q4 + l4" unfolding q4_def l4_def by (rule div_step) simp
  have b: "y div 100 = q100 + l100" unfolding q100_def l100_def by (rule div_step) simp
  have c: "y div 400 = q400 + l400" unfolding q400_def l400_def by (rule div_step) simp
  have d: "y mod 100 = 0 \<Longrightarrow> y mod 4 = 0"
    by (rule mod_zero_trans [of 4 100]) simp_all
  have e: "y mod 400 = 0 \<Longrightarrow> y mod 100 = 0"
    by (rule mod_zero_trans [of 100 400]) simp_all
  have leap: "l4 - l100 + l400 = l"
    unfolding l4_def l100_def l400_def l_def is_leap_def by (rule leap_count) (fact d e)+
  have "days_before_year (y + 1) = y * 365 + (q4 + l4) - (q100 + l100) + (q400 + l400)"
    unfolding days_before_year_def Let_def by (simp only: add_diff_cancel_right' a b c)
  moreover have "days_before_year y = (y - 1) * 365 + q4 - q100 + q400"
    unfolding days_before_year_def Let_def q4_def q100_def q400_def ..
  ultimately have "days_before_year (y + 1) = days_before_year y + 365 + (l4 - l100 + l400)"
    by (simp only: algebra_simps)
  then have "days_before_year (y + 1) = days_before_year y + (365 + l)"
    by (simp only: leap add.assoc)
  also have "365 + l = (if is_leap y then 366 else 365)"
    unfolding l_def by simp
  finally show ?thesis .
qed

lemma days_before_month_Suc:
  assumes "1 \<le> m" "m < 12"
  shows "days_before_month y (m + 1) = days_before_month y m + days_in_month y m"
proof -
  from assms have "m = 1 \<or> m = 2 \<or> m = 3 \<or> m = 4 \<or> m = 5 \<or> m = 6 \<or> m = 7 \<or> m = 8 \<or> m = 9
         \<or> m = 10 \<or> m = 11" by arith
  then show ?thesis
    by (elim disjE) (simp_all add: days_before_month_def days_in_month_def)
qed

lemma days_before_month_12:
  "days_before_month y 12 + 31 = (if is_leap y then 366 else 365)"
  by (simp add: days_before_month_def)

lemma days_before_month_1: "days_before_month y 1 = 0"
  by (simp add: days_before_month_def)

lemma days_in_month_12: "days_in_month y 12 = 31"
  by (simp add: days_in_month_def)

lemma days_in_month_1: "days_in_month y 1 = 31"
  by (simp add: days_in_month_def)

lemma days_in_month_pos: "28 \<le> days_in_month y m"
  by (simp add: days_in_month_def)

lemma toordinal_next_day:
  assumes "1 \<le> month d" "month d \<le> 12" "day d \<le> days_in_month (year d) (month d)"
  shows "toordinal (next_day d) = toordinal d + 1"
proof (cases "day d < days_in_month (year d) (month d)")
  case True
  then show ?thesis by (simp add: next_day_def toordinal_def)
next
  case False
  with assms have last: "day d = days_in_month (year d) (month d)" by simp
  show ?thesis
  proof (cases "month d < 12")
    case True
    with False assms last show ?thesis
      by (simp add: next_day_def toordinal_def days_before_month_Suc)
  next
    case False
    with assms have m: "month d = 12" by simp
    have "days_before_year (year d + 1) = days_before_year (year d) + (days_before_month (year d) 12 + 31)"
      by (simp only: days_before_year_Suc days_before_month_12)
    with m last show ?thesis
      by (simp add: next_day_def toordinal_def days_before_month_1 days_in_month_12)
  qed
qed

lemma toordinal_prev_day:
  assumes "1 \<le> month d" "month d \<le> 12" "1 \<le> day d"
  shows "toordinal (prev_day d) = toordinal d - 1"
proof (cases "1 < day d")
  case True
  then show ?thesis by (simp add: prev_day_def toordinal_def)
next
  case False
  with assms have first: "day d = 1" by simp
  show ?thesis
  proof (cases "1 < month d")
    case True
    with assms have "1 \<le> month d - 1" "month d - 1 < 12" by simp_all
    then have "days_before_month (year d) (month d - 1 + 1)
        = days_before_month (year d) (month d - 1) + days_in_month (year d) (month d - 1)"
      by (rule days_before_month_Suc)
    with True first show ?thesis by (simp add: prev_day_def toordinal_def)
  next
    case False
    with assms have m: "month d = 1" by simp
    have "days_before_year (year d - 1 + 1)
        = days_before_year (year d - 1) + (days_before_month (year d - 1) 12 + 31)"
      by (simp only: days_before_year_Suc days_before_month_12)
    with m first show ?thesis
      by (simp add: prev_day_def toordinal_def days_before_month_1)
  qed
qed

lemma datetime_add_ONE_DAY:
  "datetime_add d ONE_DAY = (if d = datetime_max then Inl OverflowError else Inr (next_day d))"
  by (simp add: datetime_add_def ONE_DAY_def)

lemma datetime_sub_ONE_DAY:
  "datetime_sub d ONE_DAY = (if d = datetime_min then Inl OverflowError else Inr (prev_day d))"
  by (simp add: datetime_sub_def datetime_add_def ONE_DAY_def)

lemma valid_next_day:
  assumes "valid_datetime d" "d \<noteq> datetime_max"
  shows "valid_datetime (next_day d)"
proof (cases "day d < days_in_month (year d) (month d)")
  case True
  with assms(1) show ?thesis by (simp add: next_day_def valid_datetime_def)
next
  case False
  show ?thesis
  proof (cases "month d < 12")
    case True
    have "1 \<le> days_in_month (year d) (month d + 1)"
      using days_in_month_pos [of "year d" "month d + 1"] by simp
    with True False assms(1) show ?thesis by (simp add: next_day_def valid_datetime_def)
  next
    case m: False
    with assms(1) have "month d = 12" by (simp add: valid_datetime_def)
    moreover from this False assms(1) have "day d = 31"
      by (simp add: valid_datetime_def days_in_month_12)
    ultimately have "year d \<noteq> 9999"
      using assms(2) by (cases d) (simp add: datetime_max_def)
    with m False assms(1) show ?thesis
      by (simp add: next_day_def valid_datetime_def MINYEAR_def MAXYEAR_def days_in_month_1)
  qed
qed

lemma valid_prev_day:
  assumes "valid_datetime d" "d \<noteq> datetime_min"
  shows "valid_datetime (prev_day d)"
proof (cases "1 < day d")
  case True
  with assms(1) show ?thesis by (simp add: prev_day_def valid_datetime_def)
next
  case False
  with assms(1) have first: "day d = 1" by (simp add: valid_datetime_def)
  show ?thesis
  proof (cases "1 < month d")
    case True
    have "1 \<le> days_in_month (year d) (month d - 1)"
      using days_in_month_pos [of "year d" "month d - 1"] by simp
    with True False assms(1) show ?thesis by (simp add: prev_day_def valid_datetime_def)
  next
    case m: False
    with assms(1) have "month d = 1" by (simp add: valid_datetime_def)
    with first have "year d \<noteq> 1"
      using assms(2) by (cases d) (simp add: datetime_min_def)
    with m False assms(1) show ?thesis
      by (simp add: prev_day_def valid_datetime_def MINYEAR_def MAXYEAR_def days_in_month_12)
  qed
qed

lemma mod7_shift: "((a::int) + b + 6) mod 7 = ((a + 6) mod 7 + b) mod 7"
proof -
  have "((a + 6) mod 7 + b) mod 7 = (a + 6 + b) mod 7" by (rule mod_add_left_eq)
  also have "a + 6 + b = a + b + 6" by (simp only: add.assoc add.commute [of 6 b])
  finally show ?thesis by (rule sym)
qed

lemma weekday_next_day:
  assumes "valid_datetime d"
  shows "weekday (next_day d) = (weekday d + 1) mod 7"
proof -
  from assms have "toordinal (next_day d) = toordinal d + 1"
    by (intro toordinal_next_day) (simp_all add: valid_datetime_def)
  then show ?thesis unfolding weekday_def by (simp only: mod7_shift)
qed

lemma weekday_prev_day:
  assumes "valid_datetime d"
  shows "weekday (prev_day d) = (weekday d - 1) mod 7"
proof -
  from assms have "toordinal (prev_day d) = toordinal d - 1"
    by (intro toordinal_prev_day) (simp_all add: valid_datetime_def)
  then have "weekday (prev_day d) = (toordinal d + (- 1) + 6) mod 7"
    unfolding weekday_def by simp
  also have "\<dots> = ((toordinal d + 6) mod 7 + (- 1)) mod 7" by (rule mod7_shift)
  finally show ?thesis unfolding weekday_def by simp
qed

lemma weekday_datetime_max: "weekday datetime_max = 4"
  by (simp add: weekday_def toordinal_def datetime_max_def days_before_year_def
      days_before_month_def is_leap_def)

lemma weekday_datetime_min: "weekday datetime_min = 0"
  by (simp add: weekday_def toordinal_def datetime_min_def days_before_year_def
      days_before_month_def is_leap_def)

lemma toordinal_datetime_min: "toordinal datetime_min = 1"
  by (simp add: toordinal_def datetime_min_def days_before_year_def days_before_month_def)

lemma toordinal_datetime_max: "toordinal datetime_max = 3652059"
  by (simp add: toordinal_def datetime_max_def days_before_year_def days_before_month_def
      is_leap_def)

lemma plus_days_ok:
  assumes "valid_datetime d" "toordinal d + int n \<le> toordinal datetime_max"
  shows "\<exists>r. plus_days d n = Inr r \<and> valid_datetime r \<and> toordinal r = toordinal d + int n"
  using assms
proof (induction n arbitrary: d)
  case 0
  then show ?case by simp
next
  case (Suc n)
  from Suc.prems(2) have ne: "d \<noteq> datetime_max" by auto
  have v: "valid_datetime (next_day d)" using Suc.prems(1) ne by (rule valid_next_day)
  have o: "toordinal (next_day d) = toordinal d + 1"
    using Suc.prems(1) by (intro toordinal_next_day) (simp_all add: valid_datetime_def)
  from Suc.prems(2) o have "toordinal (next_day d) + int n \<le> toordinal datetime_max" by simp
  from Suc.IH [OF v this] obtain r where
    "plus_days (next_day d) n = Inr r" "valid_datetime r"
    "toordinal r = toordinal (next_day d) + int n" by blast
  with ne o show ?case by simp
qed

lemma minus_days_ok:
  assumes "valid_datetime d" "toordinal datetime_min + int n \<le> toordinal d"
  shows "\<exists>r. minus_days d n = Inr r \<and> valid_datetime r \<and> toordinal r = toordinal d - int n"
  using assms
proof (induction n arbitrary: d)
  case 0
  then show ?case by simp
next
  case (Suc n)
  from Suc.prems(2) have ne: "d \<noteq> datetime_min" by auto
  have v: "valid_datetime (prev_day d)" using Suc.prems(1) ne by (rule valid_prev_day)
  have o: "toordinal (prev_day d) = toordinal d - 1"
    using Suc.prems(1) by (intro toordinal_prev_day) (simp_all add: valid_datetime_def)
  from Suc.prems(2) o have "toordinal datetime_min + int n \<le> toordinal (prev_day d)" by simp
  from Suc.IH [OF v this] obtain r where
    "minus_days (prev_day d) n = Inr r" "valid_datetime r"
    "toordinal r = toordinal (prev_day d) - int n" by blast
  with ne o show ?case by simp
qed

lemma datetime_add_ok:
  assumes "valid_datetime d" "0 \<le> k" "toordinal d + k \<le> toordinal datetime_max"
  shows "\<exists>r. datetime_add d k = Inr r \<and> valid_datetime r \<and> toordinal r = toordinal d + k"
proof -
  from assms have "toordinal d + int (nat k) \<le> toordinal datetime_max" by simp
  from plus_days_ok [OF assms(1) this] assms(2) show ?thesis
    by (simp add: datetime_add_def)
qed

lemma datetime_sub_ok:
  assumes "valid_datetime d" "0 < k" "toordinal datetime_min + k \<le> toordinal d"
  shows "\<exists>r. datetime_sub d k = Inr r \<and> valid_datetime r \<and> toordinal r = toordinal d - k"
proof -
  from assms have "toordinal datetime_min + int (nat k) \<le> toordinal d" by simp
  from minus_days_ok [OF assms(1) this] assms(2) show ?thesis
    by (simp add: datetime_sub_def datetime_add_def)
qed

lemma weekday_range: "0 \<le> weekday d \<and> weekday d < 7"
  by (simp add: weekday_def)

lemma weekday_shift:
  assumes "toordinal r = toordinal p + k"
  shows "weekday r = (weekday p + k) mod 7"
  unfolding weekday_def assms by (rule mod7_shift)

lemma days_in_year_bound:
  assumes "1 \<le> m" "m \<le> 12"
  shows "days_before_month y m + days_in_month y m \<le> (if is_leap y then 366 else 365)"
  using month_cases [OF assms]
  by (elim disjE) (simp_all add: days_before_month_def days_in_month_def)

lemma days_before_month_nonneg:
  assumes "1 \<le> m" "m \<le> 12"
  shows "0 \<le> days_before_month y m"
  using month_cases [OF assms]
  by (elim disjE) (simp_all add: days_before_month_def)

lemma toordinal_bounds:
  assumes "valid_datetime d"
  shows "days_before_year (year d) < toordinal d"
    and "toordinal d \<le> days_before_year (year d + 1)"
proof -
  from assms have m: "1 \<le> month d" "month d \<le> 12"
    and dd: "1 \<le> day d" "day d \<le> days_in_month (year d) (month d)"
    by (simp_all add: valid_datetime_def)
  from days_before_month_nonneg [OF m, of "year d"] dd(1)
  show "days_before_year (year d) < toordinal d" by (simp add: toordinal_def)
  have "days_before_month (year d) (month d) + day d
      \<le> days_before_month (year d) (month d) + days_in_month (year d) (month d)"
    using dd(2) by simp
  also have "\<dots> \<le> (if is_leap (year d) then 366 else 365)" using m by (rule days_in_year_bound)
  finally show "toordinal d \<le> days_before_year (year d + 1)"
    by (simp add: toordinal_def days_before_year_Suc)
qed

lemma days_before_year_mono:
  assumes "y \<le> z"
  shows "days_before_year y \<le> days_before_year z"
  using assms
proof (induction z rule: int_ge_induct)
  case base
  show ?case by simp
next
  case (step i)
  have "days_before_year i \<le> days_before_year (i + 1)"
    by (simp add: days_before_year_Suc)
  with step.IH show ?case by simp
qed

lemma toordinal_Timestamp_min_day: "toordinal Timestamp_min_day = 612412"
  by (simp add: toordinal_def Timestamp_min_day_def days_before_year_def days_before_month_def
      is_leap_def)

lemma toordinal_Timestamp_max_day: "toordinal Timestamp_max_day = 825914"
  by (simp add: toordinal_def Timestamp_max_day_def days_before_year_def days_before_month_def
      is_leap_def)

lemma days_before_month_mono:
  assumes "1 \<le> m" "m \<le> m'" "m' \<le> 12"
  shows "days_before_month y m \<le> days_before_month y m'"
  using assms(2,3)
proof (induction m' rule: int_ge_induct)
  case base
  show ?case by simp
next
  case (step i)
  from step.hyps step.prems assms(1) have "1 \<le> i" "i < 12" by simp_all
  then have "days_before_month y (i + 1) = days_before_month y i + days_in_month y i"
    by (rule days_before_month_Suc)
  moreover have "0 \<le> days_in_month y i" using days_in_month_pos [of y i] by simp
  moreover from step.prems have "i \<le> 12" by simp
  ultimately show ?case using step.IH by simp
qed

lemma toordinal_less_year:
  assumes "valid_datetime a" "valid_datetime b" "year a < year b"
  shows "toordinal a < toordinal b"
proof -
  have "toordinal a \<le> days_before_year (year a + 1)" using assms(1) by (rule toordinal_bounds)
  also have "\<dots> \<le> days_before_year (year b)"
    using assms(3) by (intro days_before_year_mono) simp
  also have "\<dots> < toordinal b" using assms(2) by (rule toordinal_bounds)
  finally show ?thesis .
qed

lemma toordinal_less_month:
  assumes "valid_datetime a" "valid_datetime b" "year a = year b" "month a < month b"
  shows "toordinal a < toordinal b"
proof -
  from assms(1) have ma: "1 \<le> month a" and da: "day a \<le> days_in_month (year a) (month a)"
    by (simp_all add: valid_datetime_def)
  from assms(2) have mb: "month b \<le> 12" and db: "1 \<le> day b"
    by (simp_all add: valid_datetime_def)
  from ma assms(4) mb have "month a < 12" by simp
  with ma have suc: "days_before_month (year a) (month a + 1)
      = days_before_month (year a) (month a) + days_in_month (year a) (month a)"
    by (rule days_before_month_Suc)
  from ma have "1 \<le> month a + 1" by simp
  moreover from assms(4) have "month a + 1 \<le> month b" by simp
  ultimately have "days_before_month (year a) (month a + 1) \<le> days_before_month (year a) (month b)"
    using mb by (rule days_before_month_mono)
  with suc da db assms(3) show ?thesis by (simp add: toordinal_def)
qed

lemma toordinal_inject:
  assumes "valid_datetime a" "valid_datetime b" "toordinal a = toordinal b"
  shows "a = b"
proof -
  have y: "year a = year b"
  proof (rule ccontr)
    assume "year a \<noteq> year b"
    then consider "year a < year b" | "year b < year a" by linarith
    then show False
      using toordinal_less_year [OF assms(1,2)] toordinal_less_year [OF assms(2,1)] assms(3)
      by cases simp_all
  qed
  have m: "month a = month b"
  proof (rule ccontr)
    assume "month a \<noteq> month b"
    then consider "month a < month b" | "month b < month a" by linarith
    then show False
      using toordinal_less_month [OF assms(1,2) y] toordinal_less_month [OF assms(2,1) y [symmetric]]
        assms(3)
      by cases simp_all
  qed
  from assms(3) y m have "day a = day b" by (simp add: toordinal_def)
  with y m show ?thesis by simp
qed

lemma valid_Timestamp_min_day: "valid_datetime Timestamp_min_day"
  by (simp add: valid_datetime_def Timestamp_min_day_def MINYEAR_def MAXYEAR_def
      days_in_month_def)

lemma valid_Timestamp_max_day: "valid_datetime Timestamp_max_day"
  by (simp add: valid_datetime_def Timestamp_max_day_def MINYEAR_def MAXYEAR_def
      days_in_month_def)

lemma date_add_ONE_DAY:
  assumes "valid_date cls d"
  shows "date_add cls d ONE_DAY =
    (case cls of
       PlainDatetime \<Rightarrow> if d = datetime_max then Inl OverflowError else Inr (next_day d)
     | NanosecondTimestamp \<Rightarrow>
         if d = Timestamp_max_day then Inl OutOfBoundsDatetime else Inr (next_day d))"
proof (cases cls)
  case PlainDatetime
  then show ?thesis by (simp add: date_add_def datetime_add_ONE_DAY)
next
  case NanosecondTimestamp
  with assms have v: "valid_datetime d"
    and lo: "toordinal Timestamp_min_day \<le> toordinal d"
    and hi: "toordinal d \<le> toordinal Timestamp_max_day"
    by (simp_all add: valid_date_def)
  show ?thesis
  proof (cases "d = Timestamp_max_day")
    case True
    with NanosecondTimestamp show ?thesis
      by (simp add: date_add_def ONE_DAY_def)
  next
    case False
    with toordinal_inject [OF v valid_Timestamp_max_day] hi
    have lt: "toordinal d < toordinal Timestamp_max_day" by fastforce
    then have "toordinal d < toordinal datetime_max"
      by (simp add: toordinal_Timestamp_max_day toordinal_datetime_max)
    then have "d \<noteq> datetime_max" by auto
    with NanosecondTimestamp False lo lt show ?thesis
      by (simp add: date_add_def datetime_add_ONE_DAY) (simp add: ONE_DAY_def)
  qed
qed

lemma date_sub_ONE_DAY:
  assumes "valid_date cls d"
  shows "date_sub cls d ONE_DAY =
    (case cls of
       PlainDatetime \<Rightarrow> if d = datetime_min then Inl OverflowError else Inr (prev_day d)
     | NanosecondTimestamp \<Rightarrow>
         if d = Timestamp_min_day then Inl OutOfBoundsDatetime else Inr (prev_day d))"
proof (cases cls)
  case PlainDatetime
  then show ?thesis
    using datetime_sub_ONE_DAY [of d] by (simp add: date_sub_def date_add_def datetime_sub_def)
next
  case NanosecondTimestamp
  with assms have v: "valid_datetime d"
    and lo: "toordinal Timestamp_min_day \<le> toordinal d"
    and hi: "toordinal d \<le> toordinal Timestamp_max_day"
    by (simp_all add: valid_date_def)
  show ?thesis
  proof (cases "d = Timestamp_min_day")
    case True
    with NanosecondTimestamp show ?thesis
      by (simp add: date_sub_def date_add_def ONE_DAY_def)
  next
    case False
    with toordinal_inject [OF v valid_Timestamp_min_day] lo
    have lt: "toordinal Timestamp_min_day < toordinal d" by fastforce
    then have "toordinal datetime_min < toordinal d"
      by (simp add: toordinal_Timestamp_min_day toordinal_datetime_min)
    then have "d \<noteq> datetime_min" by auto
    with NanosecondTimestamp False hi lt datetime_sub_ONE_DAY [of d] show ?thesis
      by (simp add: date_sub_def date_add_def datetime_sub_def) (simp add: ONE_DAY_def)
  qed
qed

lemma in_margin_of_year:
  assumes "valid_datetime d" "1677 < year d" "year d < 2262"
  shows "in_margin 100 d"
proof -
  have lo: "days_before_year 1678 \<le> days_before_year (year d)"
    using assms(2) by (intro days_before_year_mono) simp
  have hi: "days_before_year (year d + 1) \<le> days_before_year 2262"
    using assms(3) by (intro days_before_year_mono) simp
  have c1: "days_before_year 1678 = 612512" by (simp add: days_before_year_def)
  have c2: "days_before_year 2262 = 825813" by (simp add: days_before_year_def)
  from toordinal_bounds [OF assms(1)] lo hi c1 c2
  have "612512 < toordinal d" "toordinal d \<le> 825813" by simp_all
  with assms(1) show ?thesis
    by (simp add: in_margin_def toordinal_Timestamp_min_day toordinal_Timestamp_max_day)
qed

lemma in_margin_weaken:
  assumes "in_margin K d" "K' \<le> K"
  shows "in_margin K' d"
  using assms by (simp add: in_margin_def)

lemma ts_add_ok:
  assumes "in_margin K d" "0 \<le> k" "k \<le> K"
  shows "\<exists>r. date_add NanosecondTimestamp d k = Inr r \<and> in_margin (K - k) r
           \<and> toordinal r = toordinal d + k"
proof -
  from assms have v: "valid_datetime d"
    and lo: "toordinal Timestamp_min_day \<le> toordinal d + k"
    and hi: "toordinal d + k \<le> toordinal Timestamp_max_day"
    by (simp_all add: in_margin_def)
  from hi have "toordinal d + k \<le> toordinal datetime_max"
    by (simp add: toordinal_Timestamp_max_day toordinal_datetime_max)
  from datetime_add_ok [OF v assms(2) this] obtain r where
    r: "datetime_add d k = Inr r" "valid_datetime r" "toordinal r = toordinal d + k" by blast
  from r(1) lo hi have "date_add NanosecondTimestamp d k = Inr r" by (simp add: date_add_def)
  moreover from r(2,3) assms have "in_margin (K - k) r" by (simp add: in_margin_def)
  ultimately show ?thesis using r(3) by blast
qed

lemma ts_sub_ok:
  assumes "in_margin K d" "0 < k" "k \<le> K"
  shows "\<exists>r. date_sub NanosecondTimestamp d k = Inr r \<and> in_margin (K - k) r
           \<and> toordinal r = toordinal d - k"
proof -
  from assms have v: "valid_datetime d"
    and lo: "toordinal Timestamp_min_day \<le> toordinal d - k"
    and hi: "toordinal d - k \<le> toordinal Timestamp_max_day"
    by (simp_all add: in_margin_def)
  from lo have "toordinal datetime_min + k \<le> toordinal d"
    by (simp add: toordinal_Timestamp_min_day toordinal_datetime_min)
  from datetime_sub_ok [OF v assms(2) this] obtain r where
    r: "datetime_sub d k = Inr r" "valid_datetime r" "toordinal r = toordinal d - k" by blast
  from r(1) lo hi have "date_sub NanosecondTimestamp d k = Inr r"
    by (simp add: date_sub_def date_add_def datetime_sub_def)
  moreover from r(2,3) assms have "in_margin (K - k) r" by (simp add: in_margin_def)
  ultimately show ?thesis using r(3) by blast
qed

lemma map_result_rel2:
  assumes "\<forall>x\<in>set xs. P x"
    and "\<And>x. P x \<Longrightarrow> \<exists>y z. f x = Inr y \<and> g y = Inr z \<and> R x z \<and> Q z"
  shows "\<exists>zs. bind_result (map_result f xs) (map_result g) = Inr zs
           \<and> list_all2 R xs zs \<and> (\<forall>z\<in>set zs. Q z)"
  using assms(1)
proof (induction xs)
  case Nil
  show ?case by (simp add: bind_result_def)
next
  case (Cons x xs)
  from Cons.prems have "P x" by simp
  from assms(2) [OF this] obtain y z where
    yz: "f x = Inr y" "g y = Inr z" "R x z" "Q z" by blast
  from Cons.prems have "\<forall>x\<in>set xs. P x" by simp
  from Cons.IH [OF this] obtain zs where
    zs: "bind_result (map_result f xs) (map_result g) = Inr zs"
        "list_all2 R xs zs" "\<forall>z\<in>set zs. Q z" by blast
  from zs(1) obtain ys where ys: "map_result f xs = Inr ys" "map_result g ys = Inr zs"
    by (cases "map_result f xs") (simp_all add: bind_result_def)
  from yz ys have "bind_result (map_result f (x # xs)) (map_result g) = Inr (z # zs)"
    by (simp add: bind_result_def)
  with yz zs show ?case by simp
qed

lemma map_result_rel:
  assumes "\<forall>x\<in>set xs. P x"
    and "\<And>x. P x \<Longrightarrow> \<exists>y. f x = Inr y \<and> R x y \<and> Q y"
  shows "\<exists>ys. map_result f xs = Inr ys \<and> list_all2 R xs ys \<and> (\<forall>y\<in>set ys. Q y)"
  using assms(1)
proof (induction xs)
  case Nil
  show ?case by simp
next
  case (Cons x xs)
  from Cons.prems have "P x" by simp
  from assms(2) [OF this] obtain y where y: "f x = Inr y" "R x y" "Q y" by blast
  from Cons.prems have "\<forall>x\<in>set xs. P x" by simp
  from Cons.IH [OF this] obtain ys where
    ys: "map_result f xs = Inr ys" "list_all2 R xs ys" "\<forall>y\<in>set ys. Q y" by blast
  from y ys show ?case by simp
qed

section \<open>Weekend make-up\<close>

lemma weekend_makeup_result:
  assumes "valid_datetime d"
  shows "\<exists>r. weekend_makeup d = Inr r \<and> valid_datetime r
    \<and> r = (if year d < 2014 then d
           else if weekday d = SUNDAY then next_day d
           else if weekday d = SATURDAY then prev_day d
           else d)
    \<and> toordinal r = toordinal d +
          (if year d < 2014 then 0
           else if weekday d = SUNDAY then 1
           else if weekday d = SATURDAY then - 1
           else 0)"
proof -
  have ord_next: "toordinal (next_day d) = toordinal d + 1"
    using assms by (intro toordinal_next_day) (simp_all add: valid_datetime_def)
  have ord_prev: "toordinal (prev_day d) = toordinal d - 1"
    using assms by (intro toordinal_prev_day) (simp_all add: valid_datetime_def)
  show ?thesis
  proof (cases "year d < 2014")
    case True
    with assms show ?thesis by (simp add: weekend_makeup_def)
  next
    case late: False
    show ?thesis
    proof (cases "weekday d = SUNDAY")
      case True
      then have "d \<noteq> datetime_max"
        using weekday_datetime_max by (auto simp: SUNDAY_def)
      with True late assms ord_next show ?thesis
        by (simp add: weekend_makeup_def datetime_add_ONE_DAY valid_next_day)
    next
      case not_sun: False
      show ?thesis
      proof (cases "weekday d = SATURDAY")
        case True
        then have "d \<noteq> datetime_min"
          using weekday_datetime_min by (auto simp: SATURDAY_def)
        with True not_sun late assms ord_prev show ?thesis
          by (simp add: weekend_makeup_def datetime_sub_ONE_DAY valid_prev_day)
      next
        case False
        with not_sun late assms show ?thesis by (simp add: weekend_makeup_def)
      qed
    qed
  qed
qed

text \<open>
  Claim C4. For every date \<open>d\<close>, \<^verbatim>\<open>weekend_makeup\<close> returns \<open>d\<close> itself when the year of
  \<open>d\<close> is before 2014; from 2014 on it returns the day after \<open>d\<close> when \<open>d\<close> is a Sunday, the
  day before \<open>d\<close> when \<open>d\<close> is a Saturday, and \<open>d\<close> itself on any other weekday. The result is
  always a date: the day arithmetic cannot leave the range of \<^verbatim>\<open>datetime\<close>, because the
  last representable day is a Friday and the first one a Monday.
\<close>

theorem weekend_makeup_cases:
  assumes "valid_datetime d"
  shows "\<exists>r. weekend_makeup d = Inr r \<and> valid_datetime r
    \<and> r = (if year d < 2014 then d
           else if weekday d = SUNDAY then next_day d
           else if weekday d = SATURDAY then prev_day d
           else d)
    \<and> toordinal r = toordinal d +
          (if year d < 2014 then 0
           else if weekday d = SUNDAY then 1
           else if weekday d = SATURDAY then - 1
           else 0)"
  using assms by (rule weekend_makeup_result)

theorem weekend_makeup_cases_witness:
  "valid_datetime \<lparr>year = 2023, month = 1, day = 1\<rparr>
   \<and> weekend_makeup \<lparr>year = 2023, month = 1, day = 1\<rparr>
       = Inr \<lparr>year = 2023, month = 1, day = 2\<rparr>"
proof -
  let ?d = "\<lparr>year = 2023, month = 1, day = 1\<rparr>"
  have v: "valid_datetime ?d"
    by (simp add: valid_datetime_def MINYEAR_def MAXYEAR_def days_in_month_def)
  have w: "weekday ?d = SUNDAY"
    by (simp add: weekday_def toordinal_def days_before_year_def days_before_month_def
        SUNDAY_def)
  from weekend_makeup_cases [OF v] obtain r where
    r: "weekend_makeup ?d = Inr r"
       "r = (if year ?d < 2014 then ?d
             else if weekday ?d = SUNDAY then next_day ?d
             else if weekday ?d = SATURDAY then prev_day ?d
             else ?d)"
    by blast
  from r(2) w have "r = \<lparr>year = 2023, month = 1, day = 2\<rparr>"
    by (simp add: next_day_def days_in_month_def)
  with r(1) v show ?thesis by simp
qed

section \<open>Bridging days\<close>

lemma bridge_mon_result:
  assumes "valid_date cls d"
  shows "bridge_mon cls checker d =
    (if d = first_day cls then Inl (range_error cls)
     else Inr (if weekday (prev_day d) = MONDAY \<and> checker (prev_day d)
               then Some (prev_day d) else None))"
  using date_sub_ONE_DAY [OF assms]
  by (cases cls) (simp_all add: bridge_mon_def first_day_def range_error_def)

lemma bridge_fri_result:
  assumes "valid_date cls d"
  shows "bridge_fri cls checker d =
    (if d = last_day cls then Inl (range_error cls)
     else Inr (if weekday (next_day d) = FRIDAY \<and> checker (next_day d)
               then Some (next_day d) else None))"
  using date_add_ONE_DAY [OF assms]
  by (cases cls) (simp_all add: bridge_fri_def last_day_def range_error_def)

lemma valid_date_prev_day:
  assumes "valid_date cls d" "d \<noteq> first_day cls"
  shows "valid_date cls (prev_day d) \<and> toordinal (prev_day d) = toordinal d - 1"
proof -
  from assms(1) have v: "valid_datetime d" by (simp add: valid_date_def)
  have o: "toordinal (prev_day d) = toordinal d - 1"
    using v by (intro toordinal_prev_day) (simp_all add: valid_datetime_def)
  show ?thesis
  proof (cases cls)
    case PlainDatetime
    with assms(2) have "d \<noteq> datetime_min" by (simp add: first_day_def)
    with v have "valid_datetime (prev_day d)" by (rule valid_prev_day)
    with PlainDatetime o show ?thesis by (simp add: valid_date_def)
  next
    case NanosecondTimestamp
    with assms have lo: "toordinal Timestamp_min_day \<le> toordinal d"
      and hi: "toordinal d \<le> toordinal Timestamp_max_day"
      and ne: "d \<noteq> Timestamp_min_day"
      by (simp_all add: valid_date_def first_day_def)
    from ne toordinal_inject [OF v valid_Timestamp_min_day] lo
    have lt: "toordinal Timestamp_min_day < toordinal d" by fastforce
    then have "toordinal datetime_min < toordinal d"
      by (simp add: toordinal_Timestamp_min_day toordinal_datetime_min)
    then have "d \<noteq> datetime_min" by auto
    with v have "valid_datetime (prev_day d)" by (rule valid_prev_day)
    with NanosecondTimestamp o lt hi show ?thesis by (simp add: valid_date_def)
  qed
qed

lemma valid_date_next_day:
  assumes "valid_date cls d" "d \<noteq> last_day cls"
  shows "valid_date cls (next_day d) \<and> toordinal (next_day d) = toordinal d + 1"
proof -
  from assms(1) have v: "valid_datetime d" by (simp add: valid_date_def)
  have o: "toordinal (next_day d) = toordinal d + 1"
    using v by (intro toordinal_next_day) (simp_all add: valid_datetime_def)
  show ?thesis
  proof (cases cls)
    case PlainDatetime
    with assms(2) have "d \<noteq> datetime_max" by (simp add: last_day_def)
    with v have "valid_datetime (next_day d)" by (rule valid_next_day)
    with PlainDatetime o show ?thesis by (simp add: valid_date_def)
  next
    case NanosecondTimestamp
    with assms have lo: "toordinal Timestamp_min_day \<le> toordinal d"
      and hi: "toordinal d \<le> toordinal Timestamp_max_day"
      and ne: "d \<noteq> Timestamp_max_day"
      by (simp_all add: valid_date_def last_day_def)
    from ne toordinal_inject [OF v valid_Timestamp_max_day] hi
    have lt: "toordinal d < toordinal Timestamp_max_day" by fastforce
    then have "toordinal d < toordinal datetime_max"
      by (simp add: toordinal_Timestamp_max_day toordinal_datetime_max)
    then have "d \<noteq> datetime_max" by auto
    with v have "valid_datetime (next_day d)" by (rule valid_next_day)
    with NanosecondTimestamp o lt lo show ?thesis by (simp add: valid_date_def)
  qed
qed

text \<open>
  Claim C5, as amended. For every holiday date \<open>d\<close> other than the first day its class can
  hold, \<^verbatim>\<open>bridge_mon\<close> returns the day before \<open>d\<close> exactly when that day is a Monday and
  the checker (the year-range guard) accepts it, and \<^verbatim>\<open>None\<close> otherwise. For every holiday
  date \<open>d\<close> other than the last day its class can hold, \<^verbatim>\<open>bridge_fri\<close> returns the day after
  \<open>d\<close> exactly when that day is a Friday and the checker accepts it, and \<^verbatim>\<open>None\<close>
  otherwise. The guard reads the adjacent day, not \<open>d\<close>. On the first day \<^verbatim>\<open>bridge_mon\<close>
  returns nothing and on the last day \<^verbatim>\<open>bridge_fri\<close> returns nothing: the shift raises
  \<^verbatim>\<open>OverflowError\<close> for a plain \<^verbatim>\<open>datetime\<close> (0001-01-01 and 9999-12-31) and
  \<^verbatim>\<open>OutOfBoundsDatetime\<close> for a nanosecond \<^verbatim>\<open>Timestamp\<close> (1677-09-22 and 2262-04-11).
\<close>

theorem bridge_mon_fri_cases:
  assumes "valid_date cls d"
  shows "(d \<noteq> first_day cls \<longrightarrow>
            bridge_mon cls checker d =
              Inr (if weekday (prev_day d) = MONDAY \<and> checker (prev_day d)
                   then Some (prev_day d) else None)
          \<and> valid_date cls (prev_day d) \<and> toordinal (prev_day d) = toordinal d - 1)
    \<and> (d \<noteq> last_day cls \<longrightarrow>
            bridge_fri cls checker d =
              Inr (if weekday (next_day d) = FRIDAY \<and> checker (next_day d)
                   then Some (next_day d) else None)
          \<and> valid_date cls (next_day d) \<and> toordinal (next_day d) = toordinal d + 1)
    \<and> (d = first_day cls \<longrightarrow> bridge_mon cls checker d = Inl (range_error cls))
    \<and> (d = last_day cls \<longrightarrow> bridge_fri cls checker d = Inl (range_error cls))"
proof -
  note mon = bridge_mon_result [OF assms, of checker]
  note fri = bridge_fri_result [OF assms, of checker]
  have a: "d \<noteq> first_day cls \<longrightarrow>
            bridge_mon cls checker d =
              Inr (if weekday (prev_day d) = MONDAY \<and> checker (prev_day d)
                   then Some (prev_day d) else None)
          \<and> valid_date cls (prev_day d) \<and> toordinal (prev_day d) = toordinal d - 1"
    using mon valid_date_prev_day [OF assms] by simp
  have b: "d \<noteq> last_day cls \<longrightarrow>
            bridge_fri cls checker d =
              Inr (if weekday (next_day d) = FRIDAY \<and> checker (next_day d)
                   then Some (next_day d) else None)
          \<and> valid_date cls (next_day d) \<and> toordinal (next_day d) = toordinal d + 1"
    using fri valid_date_next_day [OF assms] by simp
  have c: "d = first_day cls \<longrightarrow> bridge_mon cls checker d = Inl (range_error cls)"
    using mon by (simp only: if_True split: if_split) blast
  have e: "d = last_day cls \<longrightarrow> bridge_fri cls checker d = Inl (range_error cls)"
    using fri by (simp only: if_True split: if_split) blast
  from a b c e show ?thesis by (intro conjI)
qed

theorem bridge_mon_fri_cases_witness:
  "valid_date NanosecondTimestamp \<lparr>year = 2019, month = 1, day = 1\<rparr>
   \<and> bridge_mon NanosecondTimestamp check_after_2013 \<lparr>year = 2019, month = 1, day = 1\<rparr>
       = Inr (Some \<lparr>year = 2018, month = 12, day = 31\<rparr>)
   \<and> bridge_fri NanosecondTimestamp check_after_2013 \<lparr>year = 2019, month = 1, day = 1\<rparr>
       = Inr None
   \<and> toordinal \<lparr>year = 2018, month = 12, day = 31\<rparr>
       = toordinal \<lparr>year = 2019, month = 1, day = 1\<rparr> - 1"
proof -
  let ?d = "\<lparr>year = 2019, month = 1, day = 1\<rparr>"
  have v: "valid_date NanosecondTimestamp ?d"
    by (simp add: valid_date_def valid_datetime_def MINYEAR_def MAXYEAR_def days_in_month_def
        toordinal_Timestamp_min_day toordinal_Timestamp_max_day)
      (simp add: toordinal_def days_before_year_def days_before_month_def)
  have p: "prev_day ?d = \<lparr>year = 2018, month = 12, day = 31\<rparr>"
    by (simp add: prev_day_def)
  have n: "next_day ?d = \<lparr>year = 2019, month = 1, day = 2\<rparr>"
    by (simp add: next_day_def days_in_month_def)
  have wp: "weekday \<lparr>year = 2018, month = 12, day = 31\<rparr> = MONDAY"
    by (simp add: weekday_def toordinal_def days_before_year_def days_before_month_def
        is_leap_def MONDAY_def)
  have wn: "weekday \<lparr>year = 2019, month = 1, day = 2\<rparr> \<noteq> FRIDAY"
    by (simp add: weekday_def toordinal_def days_before_year_def days_before_month_def
        is_leap_def FRIDAY_def)
  have ne: "?d \<noteq> first_day NanosecondTimestamp" "?d \<noteq> last_day NanosecondTimestamp"
    by (simp_all add: first_day_def last_day_def Timestamp_min_day_def Timestamp_max_day_def)
  from bridge_mon_fri_cases [OF v, of check_after_2013] ne p n wp wn v
  show ?thesis by (simp add: check_after_2013_def)
qed

text \<open>
  The claim as stated promises the adjacent day or \<^verbatim>\<open>None\<close> for every holiday date. A
  holiday rule passes nanosecond \<^verbatim>\<open>Timestamp\<close> dates, and at the last of them, 11 April
  2262, \<^verbatim>\<open>bridge_fri\<close> raises instead; so does \<^verbatim>\<open>bridge_mon\<close> at the first plain
  \<^verbatim>\<open>datetime\<close>.
\<close>

theorem bridge_fri_counterexample:
  "valid_date NanosecondTimestamp \<lparr>year = 2262, month = 4, day = 11\<rparr>
   \<and> bridge_fri NanosecondTimestamp check_after_2013 \<lparr>year = 2262, month = 4, day = 11\<rparr>
       = Inl OutOfBoundsDatetime
   \<and> valid_date PlainDatetime \<lparr>year = 1, month = 1, day = 1\<rparr>
   \<and> bridge_mon PlainDatetime check_after_2013 \<lparr>year = 1, month = 1, day = 1\<rparr>
       = Inl OverflowError"
  by code_simp

section \<open>Tomb Sweeping Day extras\<close>

lemma tomb_sweeping_loop_append:
  "tomb_sweeping_loop dts ds =
     dts @ concat (map (\<lambda>d.
       if 2012 < year d \<and> month d = 4 \<and> day d = 4
       then [\<lparr>year = year d, month = 4,
              day = (if weekday \<lparr>year = year d, month = 4, day = 4\<rparr> = THURSDAY
                     then 5 else 3)\<rparr>]
       else []) ds)"
proof (induction ds arbitrary: dts)
  case Nil
  show ?case by simp
next
  case (Cons d ds)
  show ?case by (simp add: Cons.IH)
qed

text \<open>
  Claim C10. For every input sequence of Qingming festival dates,
  \<^verbatim>\<open>evalute_tomb_sweeping_workday_extra\<close> produces, in the order of the input, exactly one
  date for each input date \<open>d\<close> with \<open>d.year > 2012\<close>, \<open>d.month = 4\<close> and \<open>d.day = 4\<close>: April 5
  of that year when April 4 of that year is a Thursday, April 3 of that year otherwise. Any
  other input date (an earlier year, or a festival not on April 4) produces nothing.
\<close>

theorem evalute_tomb_sweeping_workday_extra_eq:
  "evalute_tomb_sweeping_workday_extra dt =
     concat (map (\<lambda>d.
       if 2012 < year d \<and> month d = 4 \<and> day d = 4
       then [\<lparr>year = year d, month = 4,
              day = (if weekday \<lparr>year = year d, month = 4, day = 4\<rparr> = THURSDAY
                     then 5 else 3)\<rparr>]
       else []) dt)"
  unfolding evalute_tomb_sweeping_workday_extra_def
  by (simp only: tomb_sweeping_loop_append append_Nil)

section \<open>Execution times of the US futures calendar\<close>

lemma Timedelta_hours_open: "Timedelta_hours FUTURES_OPEN_TIME_OFFSET = 45000000000000"
  by (simp add: Timedelta_hours_def FUTURES_OPEN_TIME_OFFSET_def)

lemma Timedelta_hours_close: "Timedelta_hours FUTURES_CLOSE_TIME_OFFSET = - 3600000000000"
  by (simp add: Timedelta_hours_def FUTURES_CLOSE_TIME_OFFSET_def)

text \<open>
  Claim C9, as amended. For every timestamp \<open>t\<close> for which \<open>t\<close> plus 12 hours 30 minutes
  can be held, \<^verbatim>\<open>execution_time_from_open\<close> returns \<open>t\<close> plus 12 hours 30 minutes; for
  every timestamp \<open>t\<close> for which \<open>t\<close> minus 1 hour can be held,
  \<^verbatim>\<open>execution_time_from_close\<close> returns \<open>t\<close> minus 1 hour. For the other timestamps, the
  last 12 hours 30 minutes and the first hour of the range, the addition raises
  \<^verbatim>\<open>OutOfBoundsDatetime\<close>, except that one hour after the least 64-bit integer the result is
  that integer, \<^verbatim>\<open>NaT\<close>.
\<close>

theorem execution_time_offsets:
  assumes "valid_Timestamp t"
  shows "execution_time_from_open t =
           (if t + (12 * 3600 + 30 * 60) * 10 ^ 9 < 2 ^ 63
            then Inr (t + (12 * 3600 + 30 * 60) * 10 ^ 9) else Inl OutOfBoundsDatetime)
    \<and> execution_time_from_close t =
           (if - (2 ^ 63) \<le> t - 3600 * 10 ^ 9
            then Inr (t - 3600 * 10 ^ 9) else Inl OutOfBoundsDatetime)
    \<and> (valid_Timestamp (t + (12 * 3600 + 30 * 60) * 10 ^ 9) \<longrightarrow>
          execution_time_from_open t = Inr (t + (12 * 3600 + 30 * 60) * 10 ^ 9))
    \<and> (valid_Timestamp (t - 3600 * 10 ^ 9) \<longrightarrow>
          execution_time_from_close t = Inr (t - 3600 * 10 ^ 9))"
  using assms
  by (simp add: execution_time_from_open_def execution_time_from_close_def Timestamp_add_def
      Timedelta_hours_open Timedelta_hours_close valid_Timestamp_def)

theorem execution_time_offsets_witness:
  "valid_Timestamp 1700000000000000000
   \<and> execution_time_from_open 1700000000000000000 = Inr 1700045000000000000
   \<and> execution_time_from_close 1700000000000000000 = Inr 1699996400000000000"
proof -
  have v: "valid_Timestamp 1700000000000000000" by (simp add: valid_Timestamp_def)
  from execution_time_offsets [OF v] v show ?thesis by simp
qed

text \<open>
  The claim as stated fails at the last timestamp, 2262-04-11 23:47:16.854775807: twelve
  and a half hours later is not a timestamp, and the addition raises.
\<close>

theorem execution_time_counterexample:
  "valid_Timestamp 9223372036854775807
   \<and> execution_time_from_open 9223372036854775807 = Inl OutOfBoundsDatetime"
  by (simp add: valid_Timestamp_def execution_time_from_open_def Timestamp_add_def
      Timedelta_hours_open)

section \<open>The message of \<^verbatim>\<open>NotSessionError\<close>\<close>

lemma NotSessionError_str_parts:
  "NotSessionError_str str e =
     message_head str e @
       (if ts e < first_session (calendar e) then earlier_text str (calendar e)
        else if ts e > last_session (calendar e) then later_text str (calendar e)
        else not_session_text (calendar e))"
  by (simp add: NotSessionError_str_def message_head_def earlier_text_def later_text_def
      not_session_text_def Let_def split: option.split)

lemma case_texts_distinct:
  "earlier_text str c \<noteq> later_text str' c'"
  "earlier_text str c \<noteq> not_session_text c'"
  "later_text str c \<noteq> not_session_text c'"
  by (simp_all add: earlier_text_def later_text_def not_session_text_def)

text \<open>
  Claim C1. The rendered message of a \<^verbatim>\<open>NotSessionError\<close> is its head followed by the text
  of exactly one of the three cases: the text for earlier than the first session when
  \<open>ts < first_session\<close>, else the text for later than the last session when
  \<open>ts > last_session\<close>, else the text for not a session. The three texts differ from each
  other, whatever the calendar. When a parameter name is supplied the message begins by
  naming that parameter, and without one it begins with the timestamp.
\<close>

theorem NotSessionError_message_cases:
  "NotSessionError_str str e =
     message_head str e @
       (if ts e < first_session (calendar e) then earlier_text str (calendar e)
        else if ts e > last_session (calendar e) then later_text str (calendar e)
        else not_session_text (calendar e))
   \<and> (\<exists>!t. t \<in> {earlier_text str (calendar e), later_text str (calendar e),
                  not_session_text (calendar e)}
            \<and> NotSessionError_str str e = message_head str e @ t)
   \<and> earlier_text str (calendar e) \<noteq> later_text str (calendar e)
   \<and> earlier_text str (calendar e) \<noteq> not_session_text (calendar e)
   \<and> later_text str (calendar e) \<noteq> not_session_text (calendar e)
   \<and> (\<forall>p. param_name e = Some p \<longrightarrow>
          (\<exists>rest. NotSessionError_str str e =
                    ''Parameter `'' @ p @ ''` takes a session label'' @ rest))
   \<and> (param_name e = None \<longrightarrow>
          (\<exists>rest. NotSessionError_str str e = [CHR 0x27] @ str (ts e) @ [CHR 0x27] @ rest))"
proof -
  let ?t = "if ts e < first_session (calendar e) then earlier_text str (calendar e)
        else if ts e > last_session (calendar e) then later_text str (calendar e)
        else not_session_text (calendar e)"
  have parts: "NotSessionError_str str e = message_head str e @ ?t"
    by (rule NotSessionError_str_parts)
  have mem: "?t \<in> {earlier_text str (calendar e), later_text str (calendar e),
                  not_session_text (calendar e)}"
    by simp
  have uniq: "\<exists>!t. t \<in> {earlier_text str (calendar e), later_text str (calendar e),
                  not_session_text (calendar e)}
            \<and> NotSessionError_str str e = message_head str e @ t"
  proof (rule ex1I [of _ ?t])
    show "?t \<in> {earlier_text str (calendar e), later_text str (calendar e),
                  not_session_text (calendar e)}
            \<and> NotSessionError_str str e = message_head str e @ ?t"
      using mem parts by (rule conjI)
  next
    fix t
    assume "t \<in> {earlier_text str (calendar e), later_text str (calendar e),
                  not_session_text (calendar e)}
            \<and> NotSessionError_str str e = message_head str e @ t"
    then have "message_head str e @ t = message_head str e @ ?t" using parts by simp
    then show "t = ?t" by (simp only: same_append_eq)
  qed
  have named: "\<forall>p. param_name e = Some p \<longrightarrow>
          (\<exists>rest. NotSessionError_str str e =
                    ''Parameter `'' @ p @ ''` takes a session label'' @ rest)"
    by (simp add: parts message_head_def)
  have unnamed: "param_name e = None \<longrightarrow>
          (\<exists>rest. NotSessionError_str str e = [CHR 0x27] @ str (ts e) @ [CHR 0x27] @ rest)"
    by (simp add: parts message_head_def)
  from parts uniq case_texts_distinct [of str "calendar e"] named unnamed
  show ?thesis by (intro conjI)
qed

theorem NotSessionError_message_cases_witness:
  "param_name \<lparr>calendar = \<lparr>name = ''XTAI'', first_session = 10, last_session = 20\<rparr>,
                ts = 5, param_name = Some ''session''\<rparr> = Some ''session''
   \<and> (\<exists>rest.
        NotSessionError_str (\<lambda>t. if t = 5 then ''five'' else ''other'')
          \<lparr>calendar = \<lparr>name = ''XTAI'', first_session = 10, last_session = 20\<rparr>,
           ts = 5, param_name = Some ''session''\<rparr>
        = ''Parameter `session` takes a session label'' @ rest)
   \<and> NotSessionError_str (\<lambda>t. if t = 5 then ''five'' else ''other'')
          \<lparr>calendar = \<lparr>name = ''XTAI'', first_session = 10, last_session = 20\<rparr>,
           ts = 5, param_name = Some ''session''\<rparr>
       = ''Parameter `session` takes a session label although received input that parsed to ''
         @ [CHR 0x27] @ ''five'' @ [CHR 0x27]
         @ '' which is earlier than the first session of calendar ''
         @ [CHR 0x27] @ ''XTAI'' @ [CHR 0x27] @ '' ('' @ [CHR 0x27] @ ''other'' @ [CHR 0x27]
         @ '').''"
proof -
  let ?e = "\<lparr>calendar = \<lparr>name = ''XTAI'', first_session = 10, last_session = 20\<rparr>,
                ts = 5, param_name = Some ''session''\<rparr>"
  let ?str = "\<lambda>t::Timestamp. if t = 5 then ''five'' else ''other''"
  note inst = NotSessionError_message_cases [of ?str ?e]
  from inst have named: "\<forall>p. param_name ?e = Some p \<longrightarrow>
          (\<exists>rest. NotSessionError_str ?str ?e =
                    ''Parameter `'' @ p @ ''` takes a session label'' @ rest)"
    by (elim conjE)
  have p: "param_name ?e = Some ''session''" by simp
  from named p have n: "\<exists>rest. NotSessionError_str ?str ?e =
                    ''Parameter `'' @ ''session'' @ ''` takes a session label'' @ rest"
    by blast
  from inst have "NotSessionError_str ?str ?e =
     message_head ?str ?e @
       (if ts ?e < first_session (calendar ?e) then earlier_text ?str (calendar ?e)
        else if ts ?e > last_session (calendar ?e) then later_text ?str (calendar ?e)
        else not_session_text (calendar ?e))"
    by (elim conjE)
  then have full: "NotSessionError_str ?str ?e
       = ''Parameter `session` takes a session label although received input that parsed to ''
         @ [CHR 0x27] @ ''five'' @ [CHR 0x27]
         @ '' which is earlier than the first session of calendar ''
         @ [CHR 0x27] @ ''XTAI'' @ [CHR 0x27] @ '' ('' @ [CHR 0x27] @ ''other'' @ [CHR 0x27]
         @ '').''"
    by (simp add: message_head_def earlier_text_def)
  from p n full show ?thesis by simp
qed

section \<open>The lazy message of \<^verbatim>\<open>CalendarError\<close>\<close>






section \<open>The Chinese New Year cluster\<close>

lemma weekday_weekday_bound:
  assumes "weekday p \<noteq> 5" "weekday p \<noteq> 6"
  shows "weekday p < 5"
  using weekday_range [of p] assms by arith

lemma next_monday_ok:
  assumes "in_margin K p" "2 \<le> K"
  shows "\<exists>r. next_monday NanosecondTimestamp p = Inr r \<and> in_margin (K - 2) r
           \<and> weekday r < SATURDAY
           \<and> toordinal r = toordinal p + next_monday_shift (weekday p)"
proof (cases "weekday p = 5")
  case True
  from ts_add_ok [OF assms(1), of 2] assms(2) obtain r where
    r: "date_add NanosecondTimestamp p 2 = Inr r" "in_margin (K - 2) r"
       "toordinal r = toordinal p + 2" by auto
  from weekday_shift [OF r(3)] True have "weekday r = 0" by simp
  with r True show ?thesis
    by (simp add: next_monday_def next_monday_shift_def SATURDAY_def)
next
  case sat: False
  show ?thesis
  proof (cases "weekday p = 6")
    case True
    from ts_add_ok [OF assms(1), of 1] assms(2) obtain r where
      r: "date_add NanosecondTimestamp p 1 = Inr r" "in_margin (K - 1) r"
         "toordinal r = toordinal p + 1" by auto
    from r(2) have m: "in_margin (K - 2) r" by (rule in_margin_weaken) simp
    from weekday_shift [OF r(3)] True have "weekday r = 0" by simp
    with r(1,3) m True show ?thesis
      by (simp add: next_monday_def next_monday_shift_def SATURDAY_def SUNDAY_def)
  next
    case False
    with sat have "weekday p < 5" by (rule weekday_weekday_bound)
    moreover from assms(1) have "in_margin (K - 2) p" by (rule in_margin_weaken) simp
    ultimately show ?thesis using sat False
      by (simp add: next_monday_def next_monday_shift_def SATURDAY_def SUNDAY_def)
  qed
qed

lemma previous_friday_ok:
  assumes "in_margin K p" "2 \<le> K"
  shows "\<exists>r. previous_friday NanosecondTimestamp p = Inr r \<and> in_margin (K - 2) r
           \<and> weekday r < SATURDAY
           \<and> toordinal r = toordinal p + previous_friday_shift (weekday p)"
proof (cases "weekday p = 5")
  case True
  from ts_sub_ok [OF assms(1), of 1] assms(2) obtain r where
    r: "date_sub NanosecondTimestamp p 1 = Inr r" "in_margin (K - 1) r"
       "toordinal r = toordinal p - 1" by auto
  from r(2) have m: "in_margin (K - 2) r" by (rule in_margin_weaken) simp
  from r(3) have "toordinal r = toordinal p + (- 1)" by simp
  from weekday_shift [OF this] True have "weekday r = 4" by simp
  with r(1,3) m True show ?thesis
    by (simp add: previous_friday_def previous_friday_shift_def SATURDAY_def)
next
  case sat: False
  show ?thesis
  proof (cases "weekday p = 6")
    case True
    from ts_sub_ok [OF assms(1), of 2] assms(2) obtain r where
      r: "date_sub NanosecondTimestamp p 2 = Inr r" "in_margin (K - 2) r"
         "toordinal r = toordinal p - 2" by auto
    from r(3) have "toordinal r = toordinal p + (- 2)" by simp
    from weekday_shift [OF this] True have "weekday r = 4" by simp
    with r True show ?thesis
      by (simp add: previous_friday_def previous_friday_shift_def SATURDAY_def SUNDAY_def)
  next
    case False
    with sat have "weekday p < 5" by (rule weekday_weekday_bound)
    moreover from assms(1) have "in_margin (K - 2) p" by (rule in_margin_weaken) simp
    ultimately show ?thesis using sat False
      by (simp add: previous_friday_def previous_friday_shift_def SATURDAY_def SUNDAY_def)
  qed
qed

lemma main_stage:
  assumes "in_margin K p" "2 \<le> K"
  shows "\<exists>r. next_monday NanosecondTimestamp p = Inr r \<and> moved_forward 0 p r
           \<and> in_margin (K - 2) r"
proof -
  from next_monday_ok [OF assms] obtain r where
    r: "next_monday NanosecondTimestamp p = Inr r" "in_margin (K - 2) r"
       "weekday r < SATURDAY"
       "toordinal r = toordinal p + next_monday_shift (weekday p)" by blast
  have w: "(weekday p + 0) mod 7 = weekday p"
    using weekday_range [of p] by simp
  from r w have "moved_forward 0 p r" by (simp add: moved_forward_def in_margin_def)
  with r(1,2) show ?thesis by blast
qed

lemma forward_stage:
  assumes "in_margin K p" "3 \<le> K"
  shows "\<exists>q r. date_add NanosecondTimestamp p ONE_DAY = Inr q
           \<and> next_monday NanosecondTimestamp q = Inr r
           \<and> moved_forward 1 p r \<and> in_margin (K - 3) r"
proof -
  from ts_add_ok [OF assms(1), of 1] assms(2) obtain q where
    q: "date_add NanosecondTimestamp p 1 = Inr q" "in_margin (K - 1) q"
       "toordinal q = toordinal p + 1" by auto
  from assms(2) have "2 \<le> K - 1" by simp
  from next_monday_ok [OF q(2) this] obtain r where
    r: "next_monday NanosecondTimestamp q = Inr r" "in_margin (K - 1 - 2) r"
       "weekday r < SATURDAY"
       "toordinal r = toordinal q + next_monday_shift (weekday q)" by blast
  from r q(3) weekday_shift [OF q(3)] have mf: "moved_forward 1 p r"
    by (simp add: moved_forward_def in_margin_def)
  from r(2) have "in_margin (K - 3) r" by (rule in_margin_weaken) simp
  with q(1) r(1) mf show ?thesis by (simp add: ONE_DAY_def)
qed

lemma backward_stage:
  assumes "in_margin K p" "3 \<le> K"
  shows "\<exists>q r. date_sub NanosecondTimestamp p ONE_DAY = Inr q
           \<and> previous_friday NanosecondTimestamp q = Inr r
           \<and> moved_back 1 p r \<and> in_margin (K - 3) r"
proof -
  from ts_sub_ok [OF assms(1), of 1] assms(2) obtain q where
    q: "date_sub NanosecondTimestamp p 1 = Inr q" "in_margin (K - 1) q"
       "toordinal q = toordinal p - 1" by auto
  then have q': "toordinal q = toordinal p + (- 1)" by simp
  from assms(2) have "2 \<le> K - 1" by simp
  from previous_friday_ok [OF q(2) this] obtain r where
    r: "previous_friday NanosecondTimestamp q = Inr r" "in_margin (K - 1 - 2) r"
       "weekday r < SATURDAY"
       "toordinal r = toordinal q + previous_friday_shift (weekday q)" by blast
  from r q(3) weekday_shift [OF q'] have mb: "moved_back 1 p r"
    by (simp add: moved_back_def in_margin_def)
  from r(2) have "in_margin (K - 3) r" by (rule in_margin_weaken) simp
  with q(1) r(1) mb show ?thesis by (simp add: ONE_DAY_def)
qed

lemma forward_stage_list:
  assumes "\<forall>p\<in>set ps. in_margin K p" "3 \<le> K"
  shows "\<exists>rs. bind_result (index_add ps ONE_DAY) chinese_new_year_offset = Inr rs
           \<and> list_all2 (moved_forward 1) ps rs \<and> (\<forall>r\<in>set rs. in_margin (K - 3) r)"
  unfolding index_add_def chinese_new_year_offset_def
  using assms(1)
proof (rule map_result_rel2)
  fix p assume "in_margin K p"
  from forward_stage [OF this assms(2)]
  show "\<exists>q r. index_shift p ONE_DAY = Inr q
           \<and> next_monday NanosecondTimestamp q = Inr r
           \<and> moved_forward 1 p r \<and> in_margin (K - 3) r"
    by (auto simp: index_shift_def)
qed

lemma backward_stage_list:
  assumes "\<forall>p\<in>set ps. in_margin K p" "3 \<le> K"
  shows "\<exists>rs. bind_result (index_sub ps ONE_DAY) before_chinese_new_year_offset = Inr rs
           \<and> list_all2 (moved_back 1) ps rs \<and> (\<forall>r\<in>set rs. in_margin (K - 3) r)"
  unfolding index_sub_def before_chinese_new_year_offset_def
  using assms(1)
proof (rule map_result_rel2)
  fix p assume "in_margin K p"
  from backward_stage [OF this assms(2)]
  show "\<exists>q r. index_shift p (- ONE_DAY) = Inr q
           \<and> previous_friday NanosecondTimestamp q = Inr r
           \<and> moved_back 1 p r \<and> in_margin (K - 3) r"
    by (auto simp: index_shift_def date_sub_def)
qed

lemma main_stage_list:
  assumes "\<forall>p\<in>set ps. in_margin K p" "2 \<le> K"
  shows "\<exists>rs. chinese_new_year_offset ps = Inr rs
           \<and> list_all2 (moved_forward 0) ps rs \<and> (\<forall>r\<in>set rs. in_margin (K - 2) r)"
  unfolding chinese_new_year_offset_def
  using assms(1)
proof (rule map_result_rel)
  fix p assume "in_margin K p"
  then show "\<exists>r. next_monday NanosecondTimestamp p = Inr r \<and> moved_forward 0 p r
           \<and> in_margin (K - 2) r"
    using assms(2) by (rule main_stage)
qed

lemma cluster_stages:
  assumes "\<forall>a\<in>set cny. in_margin 100 a"
  shows "\<exists>m e e2 n2 n3.
      chinese_new_year cny = Inr m \<and> chinese_new_years_eve cny = Inr e
    \<and> chinese_new_years_eve_2 cny = Inr e2 \<and> chinese_new_year_2 cny = Inr n2
    \<and> chinese_new_year_3 cny = Inr n3
    \<and> list_all2 (moved_forward 0) cny m
    \<and> list_all2 (moved_back 1) m e
    \<and> list_all2 (moved_back 1) e e2
    \<and> list_all2 (moved_forward 1) m n2
    \<and> list_all2 (moved_forward 1) n2 n3
    \<and> (\<forall>d\<in>set (m @ e @ e2 @ n2 @ n3). in_margin 92 d)"
proof -
  from main_stage_list [OF assms] obtain m where
    m: "chinese_new_year_offset cny = Inr m" "list_all2 (moved_forward 0) cny m"
       "\<forall>r\<in>set m. in_margin 98 r" by auto
  from backward_stage_list [OF m(3)] obtain e where
    e: "bind_result (index_sub m ONE_DAY) before_chinese_new_year_offset = Inr e"
       "list_all2 (moved_back 1) m e" "\<forall>r\<in>set e. in_margin 95 r" by auto
  from backward_stage_list [OF e(3)] obtain e2 where
    e2: "bind_result (index_sub e ONE_DAY) before_chinese_new_year_offset = Inr e2"
       "list_all2 (moved_back 1) e e2" "\<forall>r\<in>set e2. in_margin 92 r" by auto
  from forward_stage_list [OF m(3)] obtain n2 where
    n2: "bind_result (index_add m ONE_DAY) chinese_new_year_offset = Inr n2"
       "list_all2 (moved_forward 1) m n2" "\<forall>r\<in>set n2. in_margin 95 r" by auto
  from forward_stage_list [OF n2(3)] obtain n3 where
    n3: "bind_result (index_add n2 ONE_DAY) chinese_new_year_offset = Inr n3"
       "list_all2 (moved_forward 1) n2 n3" "\<forall>r\<in>set n3. in_margin 92 r" by auto
  have c1: "chinese_new_year cny = Inr m" using m(1) by (simp add: chinese_new_year_def)
  have c2: "chinese_new_years_eve cny = Inr e"
    using c1 e(1) by (simp add: chinese_new_years_eve_def bind_result_def)
  have c3: "chinese_new_years_eve_2 cny = Inr e2"
    using c2 e2(1) by (simp add: chinese_new_years_eve_2_def bind_result_def)
  have c4: "chinese_new_year_2 cny = Inr n2"
    using c1 n2(1) by (simp add: chinese_new_year_2_def bind_result_def)
  have c5: "chinese_new_year_3 cny = Inr n3"
    using c4 n3(1) by (simp add: chinese_new_year_3_def bind_result_def)
  have weaken: "in_margin 92 d" if "in_margin K d" "92 \<le> K" for K d
    using that by (simp add: in_margin_def)
  have "\<forall>d\<in>set (m @ e @ e2 @ n2 @ n3). in_margin 92 d"
    using m(3) e(3) e2(3) n2(3) n3(3) by (auto intro: weaken)
  with c1 c2 c3 c4 c5 m(2) e(2) e2(2) n2(2) n3(2) show ?thesis by blast
qed

lemma plus_days_Inr:
  assumes "valid_datetime d" "plus_days d n = Inr r"
  shows "valid_datetime r \<and> toordinal r = toordinal d + int n"
  using assms
proof (induction n arbitrary: d)
  case 0
  then show ?case by simp
next
  case (Suc n)
  from Suc.prems(2) have ne: "d \<noteq> datetime_max" by (auto split: if_splits)
  with Suc.prems(2) have step: "plus_days (next_day d) n = Inr r" by simp
  have v: "valid_datetime (next_day d)" using Suc.prems(1) ne by (rule valid_next_day)
  have o: "toordinal (next_day d) = toordinal d + 1"
    using Suc.prems(1) by (intro toordinal_next_day) (simp_all add: valid_datetime_def)
  from Suc.IH [OF v step] o show ?case by simp
qed

lemma minus_days_Inr:
  assumes "valid_datetime d" "minus_days d n = Inr r"
  shows "valid_datetime r \<and> toordinal r = toordinal d - int n"
  using assms
proof (induction n arbitrary: d)
  case 0
  then show ?case by simp
next
  case (Suc n)
  from Suc.prems(2) have ne: "d \<noteq> datetime_min" by (auto split: if_splits)
  with Suc.prems(2) have step: "minus_days (prev_day d) n = Inr r" by simp
  have v: "valid_datetime (prev_day d)" using Suc.prems(1) ne by (rule valid_prev_day)
  have o: "toordinal (prev_day d) = toordinal d - 1"
    using Suc.prems(1) by (intro toordinal_prev_day) (simp_all add: valid_datetime_def)
  from Suc.IH [OF v step] o show ?case by simp
qed

lemma datetime_add_Inr:
  assumes "valid_datetime d" "datetime_add d k = Inr r"
  shows "valid_datetime r \<and> toordinal r = toordinal d + k"
proof (cases "0 \<le> k")
  case True
  with assms(2) have "plus_days d (nat k) = Inr r" by (simp add: datetime_add_def)
  from plus_days_Inr [OF assms(1) this] True show ?thesis by simp
next
  case False
  with assms(2) have "minus_days d (nat (- k)) = Inr r" by (simp add: datetime_add_def)
  from minus_days_Inr [OF assms(1) this] False show ?thesis by simp
qed

lemma date_add_Inr:
  assumes "valid_datetime d" "date_add cls d k = Inr r"
  shows "valid_datetime r \<and> toordinal r = toordinal d + k"
proof -
  from assms(2) have "datetime_add d k = Inr r"
    by (cases cls) (simp_all add: date_add_def split: if_splits)
  with assms(1) show ?thesis by (rule datetime_add_Inr)
qed

lemma date_sub_Inr:
  assumes "valid_datetime d" "date_sub cls d k = Inr r"
  shows "valid_datetime r \<and> toordinal r = toordinal d + (- k)"
  using assms unfolding date_sub_def by (rule date_add_Inr)

lemma nearest_workday_Inr:
  assumes "valid_datetime q" "nearest_workday cls q = Inr a"
  shows "a = q \<or> weekday a = 4 \<or> weekday a = 0"
proof (cases "weekday q = 5")
  case True
  with assms(2) have "date_sub cls q 1 = Inr a" by (simp add: nearest_workday_def)
  from date_sub_Inr [OF assms(1) this] have "toordinal a = toordinal q + (- 1)" by simp
  from weekday_shift [OF this] True show ?thesis by simp
next
  case sat: False
  show ?thesis
  proof (cases "weekday q = 6")
    case True
    with sat assms(2) have "date_add cls q 1 = Inr a" by (simp add: nearest_workday_def)
    from date_add_Inr [OF assms(1) this] have "toordinal a = toordinal q + 1" by simp
    from weekday_shift [OF this] True show ?thesis by simp
  next
    case False
    with sat assms(2) show ?thesis by (simp add: nearest_workday_def)
  qed
qed

text \<open>
  Claim C3, as amended. For a table of lunar new year dates in the years 1678 to 2261, every
  date of the Chinese New Year cluster is produced by a stage that shifts its input by a
  fixed number of days and then moves a weekend date to a weekday; but the weekend rule is
  not nearest-workday, and the input of a stage is the output of the stage before it, not
  the lunar anchor. The main day is the anchor moved to the following Monday when it falls
  on a weekend. The eve is the main day minus one day, moved to the preceding Friday; the
  day before the eve is the eve minus one day, moved to the preceding Friday. The second
  day is the main day plus one day, moved to the following Monday; the third day is the
  second day plus one day, moved to the following Monday. Every date produced is a weekday,
  Monday to Friday, and no stage raises.
\<close>

theorem chinese_new_year_cluster:
  assumes "\<forall>a\<in>set cny. valid_datetime a \<and> 1677 < year a \<and> year a < 2262"
  shows "\<exists>m e e2 n2 n3.
      chinese_new_year cny = Inr m \<and> chinese_new_years_eve cny = Inr e
    \<and> chinese_new_years_eve_2 cny = Inr e2 \<and> chinese_new_year_2 cny = Inr n2
    \<and> chinese_new_year_3 cny = Inr n3
    \<and> list_all2 (moved_forward 0) cny m
    \<and> list_all2 (moved_back 1) m e
    \<and> list_all2 (moved_back 1) e e2
    \<and> list_all2 (moved_forward 1) m n2
    \<and> list_all2 (moved_forward 1) n2 n3"
proof -
  from assms have "\<forall>a\<in>set cny. in_margin 100 a"
    by (simp add: in_margin_of_year)
  from cluster_stages [OF this] show ?thesis by blast
qed

theorem chinese_new_year_cluster_witness:
  "valid_datetime \<lparr>year = 2017, month = 1, day = 28\<rparr>
   \<and> 1677 < year \<lparr>year = 2017, month = 1, day = 28\<rparr>
   \<and> year \<lparr>year = 2017, month = 1, day = 28\<rparr> < 2262
   \<and> (\<exists>m e e2 n2 n3.
      chinese_new_year [\<lparr>year = 2017, month = 1, day = 28\<rparr>] = Inr m
    \<and> chinese_new_years_eve [\<lparr>year = 2017, month = 1, day = 28\<rparr>] = Inr e
    \<and> chinese_new_years_eve_2 [\<lparr>year = 2017, month = 1, day = 28\<rparr>] = Inr e2
    \<and> chinese_new_year_2 [\<lparr>year = 2017, month = 1, day = 28\<rparr>] = Inr n2
    \<and> chinese_new_year_3 [\<lparr>year = 2017, month = 1, day = 28\<rparr>] = Inr n3
    \<and> list_all2 (moved_forward 0) [\<lparr>year = 2017, month = 1, day = 28\<rparr>] m
    \<and> list_all2 (moved_back 1) m e
    \<and> list_all2 (moved_back 1) e e2
    \<and> list_all2 (moved_forward 1) m n2
    \<and> list_all2 (moved_forward 1) n2 n3)"
proof -
  let ?a = "\<lparr>year = 2017, month = 1, day = 28\<rparr>"
  have v: "valid_datetime ?a"
    by (simp add: valid_datetime_def MINYEAR_def MAXYEAR_def days_in_month_def)
  then have "\<forall>a\<in>set [?a]. valid_datetime a \<and> 1677 < year a \<and> year a < 2262" by simp
  from chinese_new_year_cluster [OF this] v show ?thesis by simp
qed

text \<open>
  The claim as stated fails: no fixed shift of the anchor followed by nearest-workday gives
  the main days of the code. The lunar new year of 2019 fell on Tuesday 5 February and is
  observed on that day, which nearest-workday gives only for a shift of zero days; the lunar
  new year of 2017 fell on Saturday 28 January and is observed on Monday 30 January, while
  the anchor moved to the nearest workday is Friday 27 January.
\<close>

theorem lunar_offset_counterexample:
  "\<not> (\<exists>delta.
        chinese_new_year
          [\<lparr>year = 2017, month = 1, day = 28\<rparr>, \<lparr>year = 2019, month = 2, day = 5\<rparr>]
        = lunar_offset_spec delta
          [\<lparr>year = 2017, month = 1, day = 28\<rparr>, \<lparr>year = 2019, month = 2, day = 5\<rparr>])"
proof
  let ?a1 = "\<lparr>year = 2017, month = 1, day = 28\<rparr>"
  let ?a2 = "\<lparr>year = 2019, month = 2, day = 5\<rparr>"
  assume "\<exists>delta. chinese_new_year [?a1, ?a2] = lunar_offset_spec delta [?a1, ?a2]"
  then obtain delta where eq: "chinese_new_year [?a1, ?a2] = lunar_offset_spec delta [?a1, ?a2]"
    by blast
  have code: "chinese_new_year [?a1, ?a2] = Inr [\<lparr>year = 2017, month = 1, day = 30\<rparr>, ?a2]"
    by code_simp
  have v2: "valid_datetime ?a2"
    by (simp add: valid_datetime_def MINYEAR_def MAXYEAR_def days_in_month_def is_leap_def)
  have w2: "weekday ?a2 = 1" by code_simp
  from eq code have spec: "lunar_offset_spec delta [?a1, ?a2]
      = Inr [\<lparr>year = 2017, month = 1, day = 30\<rparr>, ?a2]" by simp
  let ?f = "\<lambda>a. bind_result (date_add NanosecondTimestamp a delta)
              (nearest_workday NanosecondTimestamp)"
  from spec have "map_result ?f [?a1, ?a2] = Inr [\<lparr>year = 2017, month = 1, day = 30\<rparr>, ?a2]"
    by (simp only: lunar_offset_spec_def)
  then have second: "?f ?a2 = Inr ?a2"
    by (cases "?f ?a1"; cases "?f ?a2") simp_all
  then obtain q where q: "date_add NanosecondTimestamp ?a2 delta = Inr q"
    "nearest_workday NanosecondTimestamp q = Inr ?a2"
    by (cases "date_add NanosecondTimestamp ?a2 delta") (simp_all add: bind_result_def)
  from date_add_Inr [OF v2 q(1)] have vq: "valid_datetime q"
    and oq: "toordinal q = toordinal ?a2 + delta" by simp_all
  from nearest_workday_Inr [OF vq q(2)] w2 have "?a2 = q" by simp
  with oq have "delta = 0" by simp
  with spec have "lunar_offset_spec 0 [?a1, ?a2]
      = Inr [\<lparr>year = 2017, month = 1, day = 30\<rparr>, ?a2]" by simp
  moreover have "lunar_offset_spec 0 [?a1, ?a2]
      = Inr [\<lparr>year = 2017, month = 1, day = 27\<rparr>, ?a2]" by code_simp
  ultimately show False by simp
qed

section \<open>The union of the holiday rules\<close>

lemma map_result_Inr:
  assumes "map_result f xs = Inr ys"
  shows "list_all2 (\<lambda>x y. f x = Inr y) xs ys"
  using assms
proof (induction xs arbitrary: ys)
  case Nil
  then show ?case by simp
next
  case (Cons x xs)
  from Cons.prems obtain y where y: "f x = Inr y"
    by (cases "f x") simp_all
  from Cons.prems y obtain ys' where ys': "map_result f xs = Inr ys'"
    by (cases "map_result f xs") simp_all
  from Cons.prems y ys' have "ys = y # ys'" by simp
  with y Cons.IH [OF ys'] show ?case by simp
qed

lemma map_result_member:
  assumes "map_result f xs = Inr ys" "x \<in> set xs"
  shows "\<exists>y\<in>set ys. f x = Inr y"
proof -
  from map_result_Inr [OF assms(1)] have l: "list_all2 (\<lambda>x y. f x = Inr y) xs ys" .
  from assms(2) obtain i where i: "i < length xs" "xs ! i = x" by (auto simp: in_set_conv_nth)
  from l i have "f x = Inr (ys ! i)" "i < length ys"
    by (auto simp: list_all2_conv_all_nth)
  then show ?thesis by auto
qed

lemma evaluate_contains:
  assumes "evaluate (Recurring h) s e = Inr ds" "a \<in> set (anchor_dates h s e)"
    "observance h a = Inr (Some b)"
  shows "b \<in> set ds"
proof -
  from assms(1) obtain os where os: "map_result (observance h) (anchor_dates h s e) = Inr os"
    "ds = produced os"
    by (cases "map_result (observance h) (anchor_dates h s e)") (simp_all add: bind_result_def)
  from map_result_member [OF os(1) assms(2)] assms(3) have "Some b \<in> set os" by auto
  then show ?thesis unfolding os(2) produced_def by force
qed

lemma holiday_dates_contains:
  assumes "holiday_dates rules s e = Inr H" "r \<in> set rules"
  shows "\<exists>ds. evaluate r s e = Inr ds \<and> set ds \<subseteq> set H"
proof -
  from assms(1) obtain dss where dss: "map_result (\<lambda>r. evaluate r s e) rules = Inr dss"
    "H = concat dss"
    by (cases "map_result (\<lambda>r. evaluate r s e) rules")
      (simp_all add: holiday_dates_def bind_result_def)
  from map_result_member [OF dss(1) assms(2)] obtain ds where
    "ds \<in> set dss" "evaluate r s e = Inr ds" by auto
  with dss(2) show ?thesis by auto
qed

lemma rule_date_in_union:
  assumes "holiday_dates rules s e = Inr H" "Recurring h \<in> set rules"
    "a \<in> set (anchor_dates h s e)" "observance h a = Inr (Some b)"
  shows "b \<in> set H"
proof -
  from holiday_dates_contains [OF assms(1,2)] obtain ds where
    "evaluate (Recurring h) s e = Inr ds" "set ds \<subseteq> set H" by blast
  with evaluate_contains [OF _ assms(3,4)] show ?thesis by blast
qed

lemma anchor_dates_cong:
  assumes "holiday_month h = holiday_month h'" "holiday_day h = holiday_day h'"
    "start_date h = start_date h'" "end_date h = end_date h'"
  shows "anchor_dates h s e = anchor_dates h' s e"
  using assms by (simp add: anchor_dates_def)

lemma anchor_dates_valid:
  assumes "a \<in> set (anchor_dates h s e)"
  shows "valid_datetime a"
  using assms by (simp add: anchor_dates_def)

lemma bridging_rule_in_union:
  assumes H: "holiday_dates (map Recurring regular_holidays) s e = Inr H"
    and base: "base \<in> set regular_holidays" "observance base = observed weekend_makeup"
    and extra: "extra \<in> set regular_holidays"
    and same: "holiday_month extra = holiday_month base" "holiday_day extra = holiday_day base"
      "start_date extra = start_date base" "end_date extra = end_date base"
    and a: "a \<in> set (anchor_dates extra s e)"
    and b: "observance extra a = Inr (Some b)"
  shows "a \<in> set (anchor_dates base s e) \<and> b \<in> set H
    \<and> (\<exists>d. weekend_makeup a = Inr d \<and> d \<in> set H)"
proof -
  have eq: "anchor_dates extra s e = anchor_dates base s e"
    using same by (rule anchor_dates_cong)
  with a have a': "a \<in> set (anchor_dates base s e)" by simp
  from extra have "Recurring extra \<in> set (map Recurring regular_holidays)" by simp
  from rule_date_in_union [OF H this a b] have bH: "b \<in> set H" .
  from a have "valid_datetime a" by (rule anchor_dates_valid)
  from weekend_makeup_result [OF this] obtain d where d: "weekend_makeup a = Inr d" by blast
  then have obs: "observance base a = Inr (Some d)"
    by (simp add: base(2) observed_def bind_result_def)
  from base(1) have "Recurring base \<in> set (map Recurring regular_holidays)" by simp
  from rule_date_in_union [OF H this a' obs] have "d \<in> set H" .
  with a' bH d show ?thesis by blast
qed

lemma bridging_pairs:
  assumes "(base, extra) \<in>
      {(NewYearsDay, NewYearsDayExtraMon), (NewYearsDay, NewYearsDayExtraFri),
       (PeaceMemorialDay, PeaceMemorialDayExtraMon),
       (PeaceMemorialDay, PeaceMemorialDayExtraFri),
       (WomenAndChildrensDay, WomenAndChildrensDayExtraMon),
       (WomenAndChildrensDay, WomenAndChildrensDayExtraFri),
       (NationalDay, NationalDayExtraMon), (NationalDay, NationalDayExtraFri)}"
  shows "base \<in> set regular_holidays \<and> observance base = observed weekend_makeup
    \<and> extra \<in> set regular_holidays
    \<and> holiday_month extra = holiday_month base \<and> holiday_day extra = holiday_day base
    \<and> start_date extra = start_date base \<and> end_date extra = end_date base"
  using assms
  by (elim insertE emptyE Pair_inject)
    (simp_all add: regular_holidays_def NewYearsDay_def NewYearsDayExtraMon_def
      NewYearsDayExtraFri_def new_years_day_def PeaceMemorialDay_def
      PeaceMemorialDayExtraMon_def PeaceMemorialDayExtraFri_def WomenAndChildrensDay_def
      WomenAndChildrensDayExtraMon_def WomenAndChildrensDayExtraFri_def NationalDay_def
      NationalDayExtraMon_def NationalDayExtraFri_def)

text \<open>
  Claim C6. Bridging adds holiday dates and removes none. The Extra Monday and Extra Friday
  rules stand in \<^verbatim>\<open>regular_holidays\<close> as rules of their own beside the base rule with the
  same month, day and first date. So for every anchor date on which a bridging rule
  produces a date, the base rule has the same anchor, and the holiday set of the calendar,
  the union over its rules, contains both the bridging date and the date the base rule
  observes for that anchor.
\<close>

theorem bridging_dates_are_added:
  assumes "holiday_dates (map Recurring regular_holidays) s e = Inr H"
    and "(base, extra) \<in>
      {(NewYearsDay, NewYearsDayExtraMon), (NewYearsDay, NewYearsDayExtraFri),
       (PeaceMemorialDay, PeaceMemorialDayExtraMon),
       (PeaceMemorialDay, PeaceMemorialDayExtraFri),
       (WomenAndChildrensDay, WomenAndChildrensDayExtraMon),
       (WomenAndChildrensDay, WomenAndChildrensDayExtraFri),
       (NationalDay, NationalDayExtraMon), (NationalDay, NationalDayExtraFri)}"
    and "a \<in> set (anchor_dates extra s e)"
    and "observance extra a = Inr (Some b)"
  shows "base \<in> set regular_holidays \<and> extra \<in> set regular_holidays
    \<and> a \<in> set (anchor_dates base s e) \<and> b \<in> set H
    \<and> (\<exists>d. weekend_makeup a = Inr d \<and> observance base a = Inr (Some d) \<and> d \<in> set H)"
proof -
  from bridging_pairs [OF assms(2)] have
    base: "base \<in> set regular_holidays" "observance base = observed weekend_makeup"
    and extra: "extra \<in> set regular_holidays"
    and same: "holiday_month extra = holiday_month base" "holiday_day extra = holiday_day base"
      "start_date extra = start_date base" "end_date extra = end_date base"
    by blast+
  from bridging_rule_in_union [OF assms(1) base extra same assms(3,4)]
  obtain d where
    r: "a \<in> set (anchor_dates base s e)" "b \<in> set H" "weekend_makeup a = Inr d" "d \<in> set H"
    by blast
  from r(3) have "observance base a = Inr (Some d)"
    by (simp add: base(2) observed_def bind_result_def)
  with base(1) extra r show ?thesis by blast
qed

theorem bridging_dates_are_added_witness:
  "holiday_dates (map Recurring regular_holidays) (mk_date 2018 12 1) (mk_date 2019 12 31)
     = Inr [mk_date 2019 1 1, mk_date 2018 12 31, mk_date 2019 2 28, mk_date 2019 3 1,
            mk_date 2019 4 4, mk_date 2019 4 5, mk_date 2019 5 1, mk_date 2019 10 10,
            mk_date 2019 10 11]
   \<and> mk_date 2019 1 1
       \<in> set (anchor_dates NewYearsDayExtraMon (mk_date 2018 12 1) (mk_date 2019 12 31))
   \<and> observance NewYearsDayExtraMon (mk_date 2019 1 1) = Inr (Some (mk_date 2018 12 31))
   \<and> NewYearsDay \<in> set regular_holidays \<and> NewYearsDayExtraMon \<in> set regular_holidays
   \<and> mk_date 2019 1 1
       \<in> set (anchor_dates NewYearsDay (mk_date 2018 12 1) (mk_date 2019 12 31))
   \<and> observance NewYearsDay (mk_date 2019 1 1) = Inr (Some (mk_date 2019 1 1))"
proof -
  let ?s = "mk_date 2018 12 1" and ?e = "mk_date 2019 12 31"
  let ?H = "[mk_date 2019 1 1, mk_date 2018 12 31, mk_date 2019 2 28, mk_date 2019 3 1,
            mk_date 2019 4 4, mk_date 2019 4 5, mk_date 2019 5 1, mk_date 2019 10 10,
            mk_date 2019 10 11]"
  have H: "holiday_dates (map Recurring regular_holidays) ?s ?e = Inr ?H"
    by code_simp
  have a: "mk_date 2019 1 1 \<in> set (anchor_dates NewYearsDayExtraMon ?s ?e)"
    by code_simp
  have b: "observance NewYearsDayExtraMon (mk_date 2019 1 1) = Inr (Some (mk_date 2018 12 31))"
    by code_simp
  have w: "weekend_makeup (mk_date 2019 1 1) = Inr (mk_date 2019 1 1)"
    by code_simp
  have pair: "(NewYearsDay, NewYearsDayExtraMon) \<in>
      {(NewYearsDay, NewYearsDayExtraMon), (NewYearsDay, NewYearsDayExtraFri),
       (PeaceMemorialDay, PeaceMemorialDayExtraMon),
       (PeaceMemorialDay, PeaceMemorialDayExtraFri),
       (WomenAndChildrensDay, WomenAndChildrensDayExtraMon),
       (WomenAndChildrensDay, WomenAndChildrensDayExtraFri),
       (NationalDay, NationalDayExtraMon), (NationalDay, NationalDayExtraFri)}"
    by (rule insertI1)
  from bridging_dates_are_added [OF H pair a b] obtain d where
    r: "NewYearsDay \<in> set regular_holidays" "NewYearsDayExtraMon \<in> set regular_holidays"
       "mk_date 2019 1 1 \<in> set (anchor_dates NewYearsDay ?s ?e)"
       "weekend_makeup (mk_date 2019 1 1) = Inr d"
       "observance NewYearsDay (mk_date 2019 1 1) = Inr (Some d)"
    by blast
  from r(4) w have "d = mk_date 2019 1 1" by simp
  with r(5) have o: "observance NewYearsDay (mk_date 2019 1 1) = Inr (Some (mk_date 2019 1 1))"
    by simp
  from H a b r(1,2,3) o show ?thesis by (intro conjI)
qed

section \<open>Built session indexes\<close>

lemma next_day_month_day:
  assumes "1 \<le> month d" "month d \<le> 12" "1 \<le> day d" "day d \<le> days_in_month (year d) (month d)"
  shows "1 \<le> month (next_day d) \<and> month (next_day d) \<le> 12 \<and> 1 \<le> day (next_day d)
    \<and> day (next_day d) \<le> days_in_month (year (next_day d)) (month (next_day d))"
proof (cases "day d < days_in_month (year d) (month d)")
  case True
  with assms show ?thesis by (simp add: next_day_def)
next
  case False
  show ?thesis
  proof (cases "month d < 12")
    case True
    have "1 \<le> days_in_month (year d) (month d + 1)"
      using days_in_month_pos [of "year d" "month d + 1"] by simp
    with True False assms show ?thesis by (simp add: next_day_def)
  next
    case m: False
    with False assms show ?thesis by (simp add: next_day_def days_in_month_1)
  qed
qed

lemma days_from_ordinals:
  assumes "1 \<le> month d" "month d \<le> 12" "1 \<le> day d" "day d \<le> days_in_month (year d) (month d)"
  shows "(\<forall>x\<in>set (days_from d n). toordinal d \<le> toordinal x \<and> toordinal x < toordinal d + int n)
    \<and> sorted_wrt (\<lambda>a b. toordinal a < toordinal b) (days_from d n)"
  using assms
proof (induction n arbitrary: d)
  case 0
  show ?case by simp
next
  case (Suc n)
  have o: "toordinal (next_day d) = toordinal d + 1"
    using Suc.prems by (intro toordinal_next_day)
  from next_day_month_day [OF Suc.prems] have md:
    "1 \<le> month (next_day d)" "month (next_day d) \<le> 12" "1 \<le> day (next_day d)"
    "day (next_day d) \<le> days_in_month (year (next_day d)) (month (next_day d))"
    by simp_all
  from Suc.IH [OF md] o have ih:
    "\<forall>x\<in>set (days_from (next_day d) n). toordinal d + 1 \<le> toordinal x
        \<and> toordinal x < toordinal d + 1 + int n"
    "sorted_wrt (\<lambda>a b. toordinal a < toordinal b) (days_from (next_day d) n)"
    by simp_all
  from ih(1) have "\<forall>x\<in>set (days_from (next_day d) n). toordinal d < toordinal x" by auto
  with ih show ?case by auto
qed

lemma date_range_bounds:
  assumes "valid_datetime s" "d \<in> set (date_range s e)"
  shows "date_le s d \<and> date_le d e"
proof -
  from assms(1) have md: "1 \<le> month s" "month s \<le> 12" "1 \<le> day s"
    "day s \<le> days_in_month (year s) (month s)"
    by (simp_all add: valid_datetime_def)
  from days_from_ordinals [OF md, of "nat (toordinal e - toordinal s + 1)"] assms(2)
  have b: "toordinal s \<le> toordinal d"
    "toordinal d < toordinal s + int (nat (toordinal e - toordinal s + 1))"
    by (simp_all add: date_range_def)
  from assms(2) have "date_range s e \<noteq> []" by auto
  then have "0 < toordinal e - toordinal s + 1"
    by (cases "0 < toordinal e - toordinal s + 1") (simp_all add: date_range_def)
  with b show ?thesis by (simp add: date_le_def)
qed

lemma date_range_sorted:
  assumes "valid_datetime s"
  shows "sorted_wrt (\<lambda>a b. toordinal a < toordinal b) (date_range s e)"
proof -
  from assms have md: "1 \<le> month s" "month s \<le> 12" "1 \<le> day s"
    "day s \<le> days_in_month (year s) (month s)"
    by (simp_all add: valid_datetime_def)
  from days_from_ordinals [OF md] show ?thesis by (simp add: date_range_def)
qed

lemma days_from_valid:
  assumes "valid_datetime d" "toordinal d + int n \<le> toordinal datetime_max + 1"
  shows "\<forall>x\<in>set (days_from d n). valid_datetime x"
  using assms
proof (induction n arbitrary: d)
  case 0
  show ?case by simp
next
  case (Suc n)
  show ?case
  proof (cases n)
    case 0
    with Suc.prems(1) show ?thesis by simp
  next
    case (Suc k)
    with Suc.prems(2) have "toordinal d < toordinal datetime_max" by simp
    then have "d \<noteq> datetime_max" by auto
    with Suc.prems(1) have v: "valid_datetime (next_day d)" by (rule valid_next_day)
    have o: "toordinal (next_day d) = toordinal d + 1"
      using Suc.prems(1) by (intro toordinal_next_day) (simp_all add: valid_datetime_def)
    with Suc.prems(2) have "toordinal (next_day d) + int n \<le> toordinal datetime_max + 1"
      by simp
    from Suc.IH [OF v this] Suc.prems(1) show ?thesis by simp
  qed
qed

lemma date_range_valid:
  assumes "valid_datetime s" "valid_datetime e" "d \<in> set (date_range s e)"
  shows "valid_datetime d"
proof -
  from assms(3) have "date_range s e \<noteq> []" by auto
  then have pos: "0 < toordinal e - toordinal s + 1"
    by (cases "0 < toordinal e - toordinal s + 1") (simp_all add: date_range_def)
  have "toordinal e \<le> toordinal datetime_max"
  proof (rule ccontr)
    assume "\<not> toordinal e \<le> toordinal datetime_max"
    then have lt: "toordinal datetime_max < toordinal e" by simp
    have vm: "valid_datetime datetime_max"
      by (simp add: valid_datetime_def datetime_max_def MINYEAR_def MAXYEAR_def days_in_month_def)
    from assms(2) have "year e \<le> year datetime_max"
      by (simp add: valid_datetime_def MAXYEAR_def datetime_max_def)
    then consider "year e < year datetime_max" | "year e = year datetime_max" by linarith
    then show False
    proof cases
      case 1
      from toordinal_less_year [OF assms(2) vm 1] lt show False by simp
    next
      case 2
      from assms(2) have "month e \<le> 12" by (simp add: valid_datetime_def)
      then consider "month e < month datetime_max" | "month e = 12"
        by (cases "month e = 12") (simp_all add: datetime_max_def)
      then show False
      proof cases
        case 1
        from toordinal_less_month [OF assms(2) vm 2 1] lt show False by simp
      next
        case m: 2
        from assms(2) m have "day e \<le> 31" by (simp add: valid_datetime_def days_in_month_12)
        with 2 m lt show False by (simp add: toordinal_def datetime_max_def)
      qed
    qed
  qed
  with pos have "toordinal s + int (nat (toordinal e - toordinal s + 1)) \<le> toordinal datetime_max + 1"
    by simp
  from days_from_valid [OF assms(1) this] assms(3) show ?thesis by (simp add: date_range_def)
qed

lemma session_of_date:
  assumes "session_of cfg d = Inr x"
  shows "session_date x = d"
  using assms
  by (auto simp: session_of_def bind_result_def split: option.splits sum.splits)

lemma list_all2_map_back:
  assumes "list_all2 (\<lambda>x y. f x = Inr y) xs ys" "\<And>x y. f x = Inr y \<Longrightarrow> g y = x"
  shows "map g ys = xs"
  using assms(1)
proof (induction rule: list_all2_induct)
  case Nil
  show ?case by simp
next
  case (Cons x xs y ys)
  from Cons.hyps(1) have "g y = x" by (rule assms(2))
  with Cons.IH show ?case by simp
qed

lemma map_result_session_dates:
  assumes "map_result (session_of cfg) ds = Inr idx"
  shows "map session_date idx = ds"
  using map_result_Inr [OF assms] by (rule list_all2_map_back) (rule session_of_date)

lemma build_parts:
  assumes "build cfg s e = Inr idx"
  shows "\<exists>H. holiday_dates (holiday_rules cfg) s e = Inr H
    \<and> map session_date idx
        = filter (\<lambda>d. weekmask cfg (weekday d) \<and> d \<notin> set H) (date_range s e)
    \<and> session_index_invariants cfg idx"
proof -
  from assms obtain H where H: "holiday_dates (holiday_rules cfg) s e = Inr H"
    by (cases "holiday_dates (holiday_rules cfg) s e") (simp_all add: build_def bind_result_def)
  let ?ds = "filter (\<lambda>d. weekmask cfg (weekday d) \<and> d \<notin> set H) (date_range s e)"
  from assms H obtain idx' where m: "map_result (session_of cfg) ?ds = Inr idx'"
    by (cases "map_result (session_of cfg) ?ds") (simp_all add: build_def bind_result_def)
  from assms H m have inv: "session_index_invariants cfg idx'" and eq: "idx = idx'"
    by (simp_all add: build_def bind_result_def split: if_splits)
  from map_result_session_dates [OF m] eq inv H show ?thesis by simp
qed

lemma adhoc_date_in_holidays:
  assumes "holiday_dates rules s e = Inr H" "AdHoc A \<in> set rules"
    "a \<in> set A" "date_le s a" "date_le a e"
  shows "a \<in> set H"
proof -
  from holiday_dates_contains [OF assms(1,2)] obtain ds where
    "evaluate (AdHoc A) s e = Inr ds" "set ds \<subseteq> set H" by blast
  with assms(3,4,5) show ?thesis by auto
qed

lemma adhoc_date_not_a_session:
  assumes "build cfg s e = Inr idx" "valid_datetime s"
    "AdHoc A \<in> set (holiday_rules cfg)" "a \<in> set A"
  shows "a \<notin> session_date ` set idx"
proof
  assume "a \<in> session_date ` set idx"
  then have mem: "a \<in> set (map session_date idx)" by simp
  from build_parts [OF assms(1)] obtain H where
    H: "holiday_dates (holiday_rules cfg) s e = Inr H"
    and d: "map session_date idx
        = filter (\<lambda>d. weekmask cfg (weekday d) \<and> d \<notin> set H) (date_range s e)"
    by blast
  from mem d have r: "a \<in> set (date_range s e)" and nh: "a \<notin> set H" by simp_all
  from date_range_bounds [OF assms(2) r] have "date_le s a" "date_le a e" by simp_all
  from adhoc_date_in_holidays [OF H assms(3,4) this] nh show False by simp
qed

lemma nearest_workday_ok:
  assumes "in_margin K p" "1 \<le> K"
  shows "\<exists>r. nearest_workday NanosecondTimestamp p = Inr r \<and> in_margin (K - 1) r"
proof (cases "weekday p = 5")
  case True
  from ts_sub_ok [OF assms(1), of 1] assms(2) True show ?thesis
    by (auto simp: nearest_workday_def)
next
  case sat: False
  show ?thesis
  proof (cases "weekday p = 6")
    case True
    from ts_add_ok [OF assms(1), of 1] assms(2) sat True show ?thesis
      by (auto simp: nearest_workday_def)
  next
    case False
    from assms(1) have "in_margin (K - 1) p" by (rule in_margin_weaken) simp
    with sat False show ?thesis by (simp add: nearest_workday_def)
  qed
qed

lemma manual_nearest_workday_ok:
  assumes "\<forall>p\<in>set ps. in_margin K p" "1 \<le> K"
  shows "\<exists>rs. manual_nearest_workday_2013_thr_2023 ps = Inr rs
           \<and> (\<forall>r\<in>set rs. in_margin (K - 1) r)"
proof -
  have "\<exists>rs. map_result (\<lambda>d. nearest_workday_2013_thr_2023 NanosecondTimestamp d) ps = Inr rs
      \<and> list_all2 (\<lambda>p r. True) ps rs \<and> (\<forall>r\<in>set rs. in_margin (K - 1) r)"
    using assms(1)
  proof (rule map_result_rel)
    fix p assume p: "in_margin K p"
    from p have w: "in_margin (K - 1) p" by (rule in_margin_weaken) simp
    from nearest_workday_ok [OF p assms(2)] w
    show "\<exists>r. nearest_workday_2013_thr_2023 NanosecondTimestamp p = Inr r \<and> True
        \<and> in_margin (K - 1) r"
      by (simp add: nearest_workday_2013_thr_2023_def)
  qed
  then show ?thesis by (auto simp: manual_nearest_workday_2013_thr_2023_def)
qed

lemma shift_list_ok:
  assumes "\<forall>p\<in>set ps. in_margin K p" "1 \<le> K"
  shows "\<exists>rs. map_result (\<lambda>d. date_add NanosecondTimestamp d ONE_DAY) ps = Inr rs"
    and "\<exists>rs. map_result (\<lambda>d. date_sub NanosecondTimestamp d ONE_DAY) ps = Inr rs"
proof -
  have "\<exists>rs. map_result (\<lambda>d. date_add NanosecondTimestamp d ONE_DAY) ps = Inr rs
      \<and> list_all2 (\<lambda>p r. True) ps rs \<and> (\<forall>r\<in>set rs. True)"
    using assms(1)
  proof (rule map_result_rel)
    fix p assume p: "in_margin K p"
    from ts_add_ok [OF p, of 1] assms(2)
    show "\<exists>r. date_add NanosecondTimestamp p ONE_DAY = Inr r \<and> True \<and> True"
      by (auto simp: ONE_DAY_def)
  qed
  then show "\<exists>rs. map_result (\<lambda>d. date_add NanosecondTimestamp d ONE_DAY) ps = Inr rs"
    by blast
  have "\<exists>rs. map_result (\<lambda>d. date_sub NanosecondTimestamp d ONE_DAY) ps = Inr rs
      \<and> list_all2 (\<lambda>p r. True) ps rs \<and> (\<forall>r\<in>set rs. True)"
    using assms(1)
  proof (rule map_result_rel)
    fix p assume p: "in_margin K p"
    from ts_sub_ok [OF p, of 1] assms(2)
    show "\<exists>r. date_sub NanosecondTimestamp p ONE_DAY = Inr r \<and> True \<and> True"
      by (auto simp: ONE_DAY_def)
  qed
  then show "\<exists>rs. map_result (\<lambda>d. date_sub NanosecondTimestamp d ONE_DAY) ps = Inr rs"
    by blast
qed

lemma manual_extra_days_ok:
  assumes "\<forall>p\<in>set ps. in_margin K p" "1 \<le> K"
  shows "\<exists>rs. manual_extra_days_07_thr_2023 ps = Inr rs"
proof -
  let ?thu = "filter (\<lambda>d. weekday d = THURSDAY \<and> 2024 > year d \<and> year d > 2006) ps"
  let ?tue = "filter (\<lambda>d. weekday d = TUESDAY \<and> 2024 > year d \<and> year d > 2006) ps"
  from assms(1) have "\<forall>p\<in>set ?thu. in_margin K p" "\<forall>p\<in>set ?tue. in_margin K p" by simp_all
  from shift_list_ok(1) [OF this(1) assms(2)] shift_list_ok(2) [OF this(2) assms(2)]
  obtain fs ms where
    "map_result (\<lambda>d. date_add NanosecondTimestamp d ONE_DAY) ?thu = Inr fs"
    "map_result (\<lambda>d. date_sub NanosecondTimestamp d ONE_DAY) ?tue = Inr ms" by blast
  then show ?thesis by (simp add: manual_extra_days_07_thr_2023_def bind_result_def)
qed

lemma holidays_weekend_makeup_ok:
  assumes "\<forall>p\<in>set ps. valid_datetime p"
  shows "\<exists>rs. holidays_weekend_makeup ps = Inr rs"
proof -
  have "\<exists>rs. map_result (\<lambda>d. weekend_makeup d) ps = Inr rs
      \<and> list_all2 (\<lambda>p r. True) ps rs \<and> (\<forall>r\<in>set rs. True)"
    using assms
  proof (rule map_result_rel)
    fix p assume "valid_datetime p"
    from weekend_makeup_result [OF this]
    show "\<exists>r. weekend_makeup p = Inr r \<and> True \<and> True" by blast
  qed
  then show ?thesis by (auto simp: holidays_weekend_makeup_def)
qed

section \<open>The ad-hoc holidays of XTAI\<close>

lemma in_margin_valid:
  assumes "in_margin K d"
  shows "valid_datetime d"
  using assms by (simp add: in_margin_def)

lemma adhoc_holidays_total:
  assumes cny: "\<forall>a\<in>set (chinese_lunar_new_year_dates t). in_margin 100 a"
    and qm: "\<forall>a\<in>set (qingming_festival_dates t). in_margin 100 a"
    and db: "\<forall>a\<in>set (dragon_boat_festival_dates t). in_margin 100 a"
    and ma: "\<forall>a\<in>set (mid_autumn_festival_dates t). in_margin 100 a"
  shows "\<exists>rest. adhoc_holidays t = Inr (extra_holidays @ rest)"
proof -
  from cluster_stages [OF cny] obtain m e e2 n2 n3 where
    c: "chinese_new_year (chinese_lunar_new_year_dates t) = Inr m"
       "chinese_new_years_eve (chinese_lunar_new_year_dates t) = Inr e"
       "chinese_new_years_eve_2 (chinese_lunar_new_year_dates t) = Inr e2"
       "chinese_new_year_2 (chinese_lunar_new_year_dates t) = Inr n2"
       "chinese_new_year_3 (chinese_lunar_new_year_dates t) = Inr n3"
    by blast
  from manual_nearest_workday_ok [OF qm] obtain ts where
    ts: "manual_nearest_workday_2013_thr_2023 (qingming_festival_dates t) = Inr ts" by auto
  from qm have "\<forall>a\<in>set (qingming_festival_dates t). valid_datetime a"
    by (auto intro: in_margin_valid)
  from holidays_weekend_makeup_ok [OF this] obtain tsw where
    tsw: "holidays_weekend_makeup (qingming_festival_dates t) = Inr tsw" by blast
  from manual_nearest_workday_ok [OF db] obtain dbf where
    dbf: "manual_nearest_workday_2013_thr_2023 (dragon_boat_festival_dates t) = Inr dbf"
      "\<forall>r\<in>set dbf. in_margin (100 - 1) r" by auto
  from manual_extra_days_ok [OF dbf(2)] obtain dbx where
    dbx: "manual_extra_days_07_thr_2023 dbf = Inr dbx" by auto
  from db have "\<forall>a\<in>set (dragon_boat_festival_dates t). valid_datetime a"
    by (auto intro: in_margin_valid)
  from holidays_weekend_makeup_ok [OF this] obtain dbw where
    dbw: "holidays_weekend_makeup (dragon_boat_festival_dates t) = Inr dbw" by blast
  from manual_nearest_workday_ok [OF ma] obtain maf where
    maf: "manual_nearest_workday_2013_thr_2023 (mid_autumn_festival_dates t) = Inr maf"
      "\<forall>r\<in>set maf. in_margin (100 - 1) r" by auto
  from manual_extra_days_ok [OF maf(2)] obtain max where
    max: "manual_extra_days_07_thr_2023 maf = Inr max" by auto
  from ma have "\<forall>a\<in>set (mid_autumn_festival_dates t). valid_datetime a"
    by (auto intro: in_margin_valid)
  from holidays_weekend_makeup_ok [OF this] obtain maw where
    maw: "holidays_weekend_makeup (mid_autumn_festival_dates t) = Inr maw" by blast
  show ?thesis
    unfolding adhoc_holidays_def
    by (simp only: c ts tsw dbf(1) dbx dbw maf(1) max maw bind_result_def sum.case) blast
qed

text \<open>
  Claim C7. The date 2021-04-02 is one of the ad-hoc holidays of XTAI: it is the first date
  of \<^verbatim>\<open>extra_holidays\<close>, the first list chained by \<^verbatim>\<open>adhoc_holidays\<close>, and for lunisolar
  tables with dates in the years 1678 to 2261 the lists are computed without an exception.
  Consequently no session index built for XTAI contains 2021-04-02, whatever the weekly
  pattern, the zone and the range of dates.
\<close>

theorem adhoc_holiday_excluded:
  assumes "\<forall>a \<in> set (chinese_lunar_new_year_dates t) \<union> set (qingming_festival_dates t)
      \<union> set (dragon_boat_festival_dates t) \<union> set (mid_autumn_festival_dates t).
        valid_datetime a \<and> 1677 < year a \<and> year a < 2262"
  shows "\<exists>A. adhoc_holidays t = Inr A \<and> mk_date 2021 4 2 \<in> set A
    \<and> (\<forall>wm tz s e idx. valid_datetime s
          \<longrightarrow> build (XTAIExchangeCalendar wm tz A) s e = Inr idx
          \<longrightarrow> mk_date 2021 4 2 \<notin> session_date ` set idx)"
proof -
  from assms have m: "\<forall>a\<in>set (chinese_lunar_new_year_dates t). in_margin 100 a"
    "\<forall>a\<in>set (qingming_festival_dates t). in_margin 100 a"
    "\<forall>a\<in>set (dragon_boat_festival_dates t). in_margin 100 a"
    "\<forall>a\<in>set (mid_autumn_festival_dates t). in_margin 100 a"
    by (simp_all add: in_margin_of_year)
  from adhoc_holidays_total [OF m] obtain rest where
    A: "adhoc_holidays t = Inr (extra_holidays @ rest)" by blast
  let ?A = "extra_holidays @ rest"
  have mem: "mk_date 2021 4 2 \<in> set ?A" by (simp add: extra_holidays_def)
  have "mk_date 2021 4 2 \<notin> session_date ` set idx"
    if "valid_datetime s" "build (XTAIExchangeCalendar wm tz ?A) s e = Inr idx"
    for wm tz s e idx
  proof -
    have "AdHoc ?A \<in> set (holiday_rules (XTAIExchangeCalendar wm tz ?A))"
      by (simp add: XTAIExchangeCalendar_def)
    from adhoc_date_not_a_session [OF that(2,1) this mem] show ?thesis .
  qed
  with A mem show ?thesis by blast
qed

theorem adhoc_holiday_excluded_witness:
  "(\<exists>A. adhoc_holidays
          \<lparr>chinese_lunar_new_year_dates = [mk_date 2021 2 12],
           qingming_festival_dates = [mk_date 2021 4 4],
           dragon_boat_festival_dates = [mk_date 2021 6 14],
           mid_autumn_festival_dates = [mk_date 2021 9 21]\<rparr> = Inr A
        \<and> mk_date 2021 4 2 \<in> set A
        \<and> (\<forall>wm tz s e idx. valid_datetime s
              \<longrightarrow> build (XTAIExchangeCalendar wm tz A) s e = Inr idx
              \<longrightarrow> mk_date 2021 4 2 \<notin> session_date ` set idx))
   \<and> (case adhoc_holidays
          \<lparr>chinese_lunar_new_year_dates = [mk_date 2021 2 12],
           qingming_festival_dates = [mk_date 2021 4 4],
           dragon_boat_festival_dates = [mk_date 2021 6 14],
           mid_autumn_festival_dates = [mk_date 2021 9 21]\<rparr> of
         Inl x \<Rightarrow> False
       | Inr A \<Rightarrow>
           (case build (XTAIExchangeCalendar (\<lambda>w. True) (\<lambda>l. 28800) A)
                   (mk_date 2021 3 31) (mk_date 2021 4 6) of
              Inl x \<Rightarrow> False
            | Inr idx \<Rightarrow>
                map session_date idx
                  = [mk_date 2021 3 31, mk_date 2021 4 1, mk_date 2021 4 4, mk_date 2021 4 6]))"
proof -
  let ?t = "\<lparr>chinese_lunar_new_year_dates = [mk_date 2021 2 12],
           qingming_festival_dates = [mk_date 2021 4 4],
           dragon_boat_festival_dates = [mk_date 2021 6 14],
           mid_autumn_festival_dates = [mk_date 2021 9 21]\<rparr>"
  have "\<forall>a \<in> set (chinese_lunar_new_year_dates ?t) \<union> set (qingming_festival_dates ?t)
      \<union> set (dragon_boat_festival_dates ?t) \<union> set (mid_autumn_festival_dates ?t).
        valid_datetime a \<and> 1677 < year a \<and> year a < 2262"
    by (simp add: mk_date_def valid_datetime_def MINYEAR_def MAXYEAR_def days_in_month_def)
  from adhoc_holiday_excluded [OF this] have first:
    "\<exists>A. adhoc_holidays ?t = Inr A \<and> mk_date 2021 4 2 \<in> set A
        \<and> (\<forall>wm tz s e idx. valid_datetime s
              \<longrightarrow> build (XTAIExchangeCalendar wm tz A) s e = Inr idx
              \<longrightarrow> mk_date 2021 4 2 \<notin> session_date ` set idx)" .
  have second: "case adhoc_holidays ?t of
         Inl x \<Rightarrow> False
       | Inr A \<Rightarrow>
           (case build (XTAIExchangeCalendar (\<lambda>w. True) (\<lambda>l. 28800) A)
                   (mk_date 2021 3 31) (mk_date 2021 4 6) of
              Inl x \<Rightarrow> False
            | Inr idx \<Rightarrow>
                map session_date idx
                  = [mk_date 2021 3 31, mk_date 2021 4 1, mk_date 2021 4 4, mk_date 2021 4 6])"
    by code_simp
  from first second show ?thesis by (rule conjI)
qed

section \<open>Sessions of the US futures calendar\<close>

lemma list_all2_dates:
  assumes "list_all2 (\<lambda>d x. session_date x = d) ds idx"
  shows "map session_date idx = ds"
  using assms by (induction rule: list_all2_induct) simp_all

lemma build_open_before_close:
  assumes "build cfg s e = Inr idx"
  shows "\<forall>x\<in>set idx. open_instant x < close_instant x"
proof -
  from build_parts [OF assms] have "session_index_invariants cfg idx" by blast
  then show ?thesis by (simp add: session_index_invariants_def list_all_iff)
qed

lemma to_instant_gap:
  assumes "\<forall>l. - 18000 \<le> tz l \<and> tz l \<le> - 14400" "toordinal p = toordinal d - 1"
  shows "to_instant tz p (time 18 1) < to_instant tz d (time 18 0)"
proof -
  define lo where "lo = (toordinal p - 719163) * 86400 + time 18 1"
  define lc where "lc = (toordinal d - 719163) * 86400 + time 18 0"
  from assms(1) have "tz lc \<le> - 14400" "- 18000 \<le> tz lo" by simp_all
  moreover have "lc = lo + 86340" by (simp add: lo_def lc_def assms(2) time_def)
  ultimately have "lo - tz lo < lc - tz lc" by simp
  then show ?thesis by (simp add: to_instant_def Let_def lo_def lc_def)
qed

lemma futures_session_of:
  assumes tz: "\<forall>l. - 18000 \<le> tz l \<and> tz l \<le> - 14400"
    and d: "valid_date NanosecondTimestamp d" "d \<noteq> Timestamp_min_day"
  shows "\<exists>x. session_of (QuantopianUSFuturesCalendar wm rules tz) d = Inr x
    \<and> session_date x = d
    \<and> (open_instant x = to_instant tz (prev_day d) (time 18 1)
       \<and> close_instant x = to_instant tz d (time 18 0)
       \<and> open_instant x < close_instant x \<and> \<not> is_special x)"
proof -
  from date_sub_ONE_DAY [OF d(1)] d(2)
  have "date_sub NanosecondTimestamp d ONE_DAY = Inr (prev_day d)" by simp
  then have shift: "date_add NanosecondTimestamp d (- 1) = Inr (prev_day d)"
    by (simp add: date_sub_def ONE_DAY_def)
  from d(1) have "valid_datetime d" by (simp add: valid_date_def)
  then have "toordinal (prev_day d) = toordinal d - 1"
    by (intro toordinal_prev_day) (simp_all add: valid_datetime_def)
  from to_instant_gap [OF tz this]
  have gap: "to_instant tz (prev_day d) (time 18 1) < to_instant tz d (time 18 0)" .
  from shift gap show ?thesis
    by (simp add: session_of_def QuantopianUSFuturesCalendar_def bind_result_def)
qed

lemma futures_build:
  assumes tz: "\<forall>l. - 18000 \<le> tz l \<and> tz l \<le> - 14400"
    and s: "valid_date NanosecondTimestamp s" "s \<noteq> Timestamp_min_day"
    and e: "valid_date NanosecondTimestamp e"
    and H: "holiday_dates rules s e = Inr H"
  shows "\<exists>idx. build (QuantopianUSFuturesCalendar wm rules tz) s e = Inr idx
    \<and> map session_date idx = filter (\<lambda>d. wm (weekday d) \<and> d \<notin> set H) (date_range s e)
    \<and> (\<forall>x\<in>set idx.
          open_instant x = to_instant tz (prev_day (session_date x)) (time 18 1)
          \<and> close_instant x = to_instant tz (session_date x) (time 18 0)
          \<and> open_instant x < close_instant x \<and> \<not> is_special x)"
proof -
  let ?cfg = "QuantopianUSFuturesCalendar wm rules tz"
  let ?ds = "filter (\<lambda>d. wm (weekday d) \<and> d \<notin> set H) (date_range s e)"
  let ?P = "\<lambda>d. valid_date NanosecondTimestamp d \<and> d \<noteq> Timestamp_min_day"
  let ?R = "\<lambda>d x. session_date x = d"
  let ?Q = "\<lambda>x. open_instant x = to_instant tz (prev_day (session_date x)) (time 18 1)
          \<and> close_instant x = to_instant tz (session_date x) (time 18 0)
          \<and> open_instant x < close_instant x \<and> \<not> is_special x"
  from s(1) e have vs: "valid_datetime s" and ve: "valid_datetime e"
    and slo: "toordinal Timestamp_min_day \<le> toordinal s"
    and ehi: "toordinal e \<le> toordinal Timestamp_max_day"
    by (simp_all add: valid_date_def)
  from s(2) toordinal_inject [OF vs valid_Timestamp_min_day] slo
  have slt: "toordinal Timestamp_min_day < toordinal s" by fastforce
  have P: "\<forall>d\<in>set ?ds. ?P d"
  proof
    fix d assume "d \<in> set ?ds"
    then have r: "d \<in> set (date_range s e)" by simp
    from date_range_valid [OF vs ve r] have vd: "valid_datetime d" .
    from date_range_bounds [OF vs r] have "toordinal s \<le> toordinal d" "toordinal d \<le> toordinal e"
      by (simp_all add: date_le_def)
    with slt ehi vd show "?P d" by (auto simp: valid_date_def)
  qed
  have "\<exists>idx. map_result (session_of ?cfg) ?ds = Inr idx \<and> list_all2 ?R ?ds idx
      \<and> (\<forall>x\<in>set idx. ?Q x)"
    using P
  proof (rule map_result_rel)
    fix d assume "?P d"
    then have "valid_date NanosecondTimestamp d" "d \<noteq> Timestamp_min_day" by simp_all
    from futures_session_of [OF tz this, of wm rules]
    show "\<exists>x. session_of ?cfg d = Inr x \<and> ?R d x \<and> ?Q x" by auto
  qed
  then obtain idx where idx: "map_result (session_of ?cfg) ?ds = Inr idx"
    "list_all2 ?R ?ds idx" "\<forall>x\<in>set idx. ?Q x" by blast
  from idx(2) have dates: "map session_date idx = ?ds" by (rule list_all2_dates)
  have "sorted_wrt (\<lambda>a b. toordinal a < toordinal b) ?ds"
    using date_range_sorted [OF vs] by (rule sorted_wrt_filter)
  with dates have "sorted_wrt (\<lambda>a b. toordinal a < toordinal b) (map session_date idx)" by simp
  then have sorted: "sorted_wrt (\<lambda>a b. toordinal (session_date a) < toordinal (session_date b)) idx"
    by (simp only: sorted_wrt_map)
  from idx(3) have "\<forall>x\<in>set idx. open_instant x < close_instant x" by blast
  then have "list_all (\<lambda>x. open_instant x < close_instant x) idx"
    by (simp only: list_all_iff)
  with sorted have inv: "session_index_invariants ?cfg idx"
    by (simp add: session_index_invariants_def QuantopianUSFuturesCalendar_def)
  have hr: "holiday_rules ?cfg = rules" "weekmask ?cfg = wm"
    by (simp_all add: QuantopianUSFuturesCalendar_def)
  from H idx(1) inv have "build ?cfg s e = Inr idx"
    by (simp add: build_def hr bind_result_def)
  with dates idx(3) show ?thesis by blast
qed

text \<open>
  Claim C2. Every session of a built session index opens before it closes. For the US
  futures calendar an index is built, whatever the weekly pattern and the holiday rules,
  for every range of dates that begins after the first day a session date can hold; each of
  its sessions opens at 18:01 New York time on the calendar day before its trading date
  (the session day-offset is -1), closes at 18:00 New York time on the trading date, has no
  special hours, and so opens before it closes. The zone enters through its offsets from
  UTC, which for New York lie between 5 and 4 hours behind.
\<close>

theorem sessions_open_before_close:
  assumes "\<forall>l. - 18000 \<le> tz l \<and> tz l \<le> - 14400"
    and "valid_date NanosecondTimestamp s" "s \<noteq> Timestamp_min_day"
    and "valid_date NanosecondTimestamp e"
    and "holiday_dates rules s e = Inr H"
  shows "(\<forall>cfg s' e' idx. build cfg s' e' = Inr idx
            \<longrightarrow> (\<forall>x\<in>set idx. open_instant x < close_instant x))
    \<and> (\<exists>idx. build (QuantopianUSFuturesCalendar wm rules tz) s e = Inr idx
          \<and> map session_date idx
              = filter (\<lambda>d. wm (weekday d) \<and> d \<notin> set H) (date_range s e)
          \<and> (\<forall>x\<in>set idx.
                open_instant x = to_instant tz (prev_day (session_date x)) (time 18 1)
                \<and> close_instant x = to_instant tz (session_date x) (time 18 0)
                \<and> open_instant x < close_instant x \<and> \<not> is_special x))"
proof (rule conjI)
  show "\<forall>cfg s' e' idx. build cfg s' e' = Inr idx
            \<longrightarrow> (\<forall>x\<in>set idx. open_instant x < close_instant x)"
    using build_open_before_close by blast
  show "\<exists>idx. build (QuantopianUSFuturesCalendar wm rules tz) s e = Inr idx
          \<and> map session_date idx
              = filter (\<lambda>d. wm (weekday d) \<and> d \<notin> set H) (date_range s e)
          \<and> (\<forall>x\<in>set idx.
                open_instant x = to_instant tz (prev_day (session_date x)) (time 18 1)
                \<and> close_instant x = to_instant tz (session_date x) (time 18 0)
                \<and> open_instant x < close_instant x \<and> \<not> is_special x)"
    using assms by (rule futures_build)
qed

theorem sessions_open_before_close_witness:
  "valid_date NanosecondTimestamp (mk_date 2021 1 1)
   \<and> mk_date 2021 1 1 \<noteq> Timestamp_min_day
   \<and> valid_date NanosecondTimestamp (mk_date 2021 1 5)
   \<and> holiday_dates [] (mk_date 2021 1 1) (mk_date 2021 1 5) = Inr []
   \<and> build (QuantopianUSFuturesCalendar (\<lambda>w. w < 5) [] (\<lambda>l. - 18000))
        (mk_date 2021 1 1) (mk_date 2021 1 5)
      = Inr [\<lparr>session_date = mk_date 2021 1 1, open_instant = 1609455660,
               close_instant = 1609542000, is_special = False\<rparr>,
             \<lparr>session_date = mk_date 2021 1 4, open_instant = 1609714860,
               close_instant = 1609801200, is_special = False\<rparr>,
             \<lparr>session_date = mk_date 2021 1 5, open_instant = 1609801260,
               close_instant = 1609887600, is_special = False\<rparr>]
   \<and> (\<exists>idx. build (QuantopianUSFuturesCalendar (\<lambda>w. w < 5) [] (\<lambda>l. - 18000))
               (mk_date 2021 1 1) (mk_date 2021 1 5) = Inr idx
          \<and> list_all (\<lambda>x. open_instant x < close_instant x \<and> \<not> is_special x) idx)"
proof -
  let ?s = "mk_date 2021 1 1" and ?e = "mk_date 2021 1 5"
  have tz: "\<forall>l::int. - 18000 \<le> (\<lambda>l. - 18000 :: int) l \<and> (\<lambda>l. - 18000 :: int) l \<le> - 14400"
    by simp
  have s: "valid_date NanosecondTimestamp ?s" by code_simp
  have ne: "?s \<noteq> Timestamp_min_day" by (simp add: mk_date_def Timestamp_min_day_def)
  have e: "valid_date NanosecondTimestamp ?e" by code_simp
  have H: "holiday_dates [] ?s ?e = Inr []" by (simp add: holiday_dates_def bind_result_def)
  have b: "build (QuantopianUSFuturesCalendar (\<lambda>w. w < 5) [] (\<lambda>l. - 18000)) ?s ?e
      = Inr [\<lparr>session_date = mk_date 2021 1 1, open_instant = 1609455660,
               close_instant = 1609542000, is_special = False\<rparr>,
             \<lparr>session_date = mk_date 2021 1 4, open_instant = 1609714860,
               close_instant = 1609801200, is_special = False\<rparr>,
             \<lparr>session_date = mk_date 2021 1 5, open_instant = 1609801260,
               close_instant = 1609887600, is_special = False\<rparr>]"
    by code_simp
  from sessions_open_before_close [OF tz s ne e H, of "\<lambda>w. w < 5"]
  obtain idx where
    "build (QuantopianUSFuturesCalendar (\<lambda>w. w < 5) [] (\<lambda>l. - 18000)) ?s ?e = Inr idx"
    "\<forall>x\<in>set idx. open_instant x < close_instant x \<and> \<not> is_special x"
    by blast
  then have ex: "\<exists>idx. build (QuantopianUSFuturesCalendar (\<lambda>w. w < 5) [] (\<lambda>l. - 18000))
               ?s ?e = Inr idx
          \<and> list_all (\<lambda>x. open_instant x < close_instant x \<and> \<not> is_special x) idx"
    by (simp only: list_all_iff) blast
  from s ne e H b ex show ?thesis by (intro conjI)
qed

end
